theory Spec2Isabelle
  imports Main "HOL-Library.Char_ord" "HOL-Library.List_Lexorder" "HOL-Library.Multiset"
begin

section \<open>JavaScript values shared by the two handlers\<close>

text \<open>
  Strings are lists of characters; every string the handlers compare, sort or concatenate
  is ASCII in the data model (numeric identities, section codes, \<open>YYYY-MM-DD\<close> dates),
  so the order of \<^typ>\<open>char\<close> is the order of JavaScript's code units there, and
  the order \<open>\<le>\<close> of strings is the lexicographic one that \<open>Array.prototype.sort\<close>
  without a comparator sorts by.

  An exception is a value: \<open>StoreError\<close> stands for an error raised by the MongoDB
  driver, with its \<open>code\<close> property when it has one; \<open>TypeError\<close> is the language's own.
\<close>

datatype js_error = StoreError "nat option" string | TypeError

text \<open>
  The section codes are the keys of the object literals \<open>WINDOWS\<close>, \<open>sectionData\<close> and
  \<open>rosterTotals\<close>, and the array the loops of \<open>stats.js\<close> run over.
\<close>

definition section_codes :: "string list" where
  "section_codes = [''0201'', ''0202'', ''0203'']"

text \<open>
  An object literal inherits from \<open>Object.prototype\<close>, so \<open>obj[key]\<close> finds these
  names on every plain object: \<open>__proto__\<close> is an accessor that answers the prototype
  object itself, the others are functions. All of them are truthy.
\<close>

definition object_prototype_functions :: "string list" where
  "object_prototype_functions =
     [''constructor'', ''__defineGetter__'', ''__defineSetter__'', ''hasOwnProperty'',
      ''__lookupGetter__'', ''__lookupSetter__'', ''isPrototypeOf'',
      ''propertyIsEnumerable'', ''toString'', ''valueOf'', ''toLocaleString'']"

definition proto_key :: string where
  "proto_key = ''__proto__''"

text \<open>\<open>Set.prototype.add\<close> on a set kept in insertion order.\<close>

definition set_add :: "'a list \<Rightarrow> 'a \<Rightarrow> 'a list" where
  "set_add xs x = (if x \<in> set xs then xs else xs @ [x])"

text \<open>
  \<open>Array.prototype.sort(compare)\<close>: the sort is stable (ECMAScript 2019), and a stable
  sort by a consistent comparator has one result, whatever the engine's algorithm; it is
  written here as an insertion sort that puts an element before the first one it does
  not compare greater than.
\<close>

fun insert_by :: "('a \<Rightarrow> 'a \<Rightarrow> int) \<Rightarrow> 'a \<Rightarrow> 'a list \<Rightarrow> 'a list" where
  "insert_by cmp x [] = [x]"
| "insert_by cmp x (y # ys) =
     (if cmp x y \<le> 0 then x # y # ys else y # insert_by cmp x ys)"

definition js_sort :: "('a \<Rightarrow> 'a \<Rightarrow> int) \<Rightarrow> 'a list \<Rightarrow> 'a list" where
  "js_sort cmp xs = foldr (insert_by cmp) xs []"

section \<open>Data model\<close>

record student =
  s_uid :: string
  s_name :: string
  s_section :: string
  s_email :: "string option"

record attendance_record =
  a_uid :: string
  a_date :: string
  a_section :: string
  a_timestamp :: string

text \<open>
  A calendar date as \<open>submitAttendance.js\<close> writes it: four digits, two digits and two
  digits, joined by hyphens.
\<close>

definition is_digit :: "char \<Rightarrow> bool" where
  "is_digit c = (c \<in> set ''0123456789'')"

fun iso_date :: "string \<Rightarrow> bool" where
  "iso_date [y1, y2, y3, y4, h1, m1, m2, h2, d1, d2] =
     (is_digit y1 \<and> is_digit y2 \<and> is_digit y3 \<and> is_digit y4 \<and> h1 = CHR ''-'' \<and>
      is_digit m1 \<and> is_digit m2 \<and> h2 = CHR ''-'' \<and> is_digit d1 \<and> is_digit d2)"
| "iso_date _ = False"

section \<open>The Stats Aggregator (\<open>netlify/functions/stats.js\<close>)\<close>

subsection \<open>Counting per date and section (lines 52 to 65)\<close>

text \<open>
  The state of the \<open>forEach\<close> loop: the set of dates, the own properties of the three
  objects of \<open>sectionData\<close>, and the properties the loop has added to
  \<open>Object.prototype\<close>, which every object of the process inherits and which outlive the
  invocation. The keys of these objects are dates; a date is a \<open>YYYY-MM-DD\<close> string (the
  data model), so it never names a property \<open>Object.prototype\<close> has of its own.
\<close>

record aggregation =
  dateSet :: "string list"
  sectionData :: "string \<Rightarrow> string \<rightharpoonup> nat"
  objectPrototype :: "string \<rightharpoonup> nat"

text \<open>What \<open>sectionData[a.section]\<close> evaluates to.\<close>

datatype property_value =
  Undefined | OwnObject | PrototypeObject | BuiltinFunction | InheritedNumber nat

definition sectionData_lookup :: "(string \<rightharpoonup> nat) \<Rightarrow> string \<Rightarrow> property_value" where
  "sectionData_lookup proto k =
     (if k \<in> set section_codes then OwnObject
      else if k = proto_key then PrototypeObject
      else if k \<in> set object_prototype_functions then BuiltinFunction
      else case proto k of Some v \<Rightarrow> InheritedNumber v | None \<Rightarrow> Undefined)"

text \<open>
  \<open>obj[d] || 0\<close> for a plain object \<open>obj\<close> keyed by dates: an own property first, then
  one inherited from \<open>Object.prototype\<close>, then 0. This is the code for a key \<open>d\<close> that
  is a \<open>YYYY-MM-DD\<close> date only: the members \<open>Object.prototype\<close> has of its own
  (\<open>toString\<close>, \<open>constructor\<close>, ...) are not such keys and are not looked up here, so
  the theorems of the claims about the report take \<open>iso_date\<close> of every date of the
  collection as a hypothesis.
\<close>

definition count_or_zero :: "(string \<rightharpoonup> nat) \<Rightarrow> (string \<rightharpoonup> nat) \<Rightarrow> string \<Rightarrow> nat" where
  "count_or_zero own proto d =
     (case own d of Some v \<Rightarrow> v
      | None \<Rightarrow> (case proto d of Some v \<Rightarrow> v | None \<Rightarrow> 0))"

text \<open>
  One round of the loop of lines 60 to 65. The target of the assignment is the object
  \<open>sectionData[a.section]\<close> found: a section's own object, \<open>Object.prototype\<close> itself
  for \<open>__proto__\<close>, a built-in function (whose new property nothing reads), or a number
  inherited from \<open>Object.prototype\<close>, on which an assignment throws in module code.
  The date \<open>a.date\<close> written is a \<open>YYYY-MM-DD\<close> string, as for \<open>count_or_zero\<close>.
\<close>

definition aggregate_step :: "aggregation \<Rightarrow> attendance_record \<Rightarrow> js_error + aggregation" where
  "aggregate_step st a =
     (let st1 = st\<lparr>dateSet := set_add (dateSet st) (a_date a)\<rparr>;
          sec = a_section a;
          d = a_date a
      in case sectionData_lookup (objectPrototype st1) sec of
           Undefined \<Rightarrow> Inr st1
         | OwnObject \<Rightarrow>
             Inr (st1\<lparr>sectionData := (sectionData st1)
                    (sec := (sectionData st1 sec)
                       (d \<mapsto> count_or_zero (sectionData st1 sec) (objectPrototype st1) d + 1))\<rparr>)
         | PrototypeObject \<Rightarrow>
             Inr (st1\<lparr>objectPrototype := (objectPrototype st1)
                    (d \<mapsto> count_or_zero (objectPrototype st1) Map.empty d + 1)\<rparr>)
         | BuiltinFunction \<Rightarrow> Inr st1
         | InheritedNumber v \<Rightarrow> (if v = 0 then Inr st1 else Inl TypeError))"

text \<open>
  The loop: it stops at the first exception, and what it has written to
  \<open>Object.prototype\<close> by then stays.
\<close>

fun forEach_attendance ::
  "aggregation \<Rightarrow> attendance_record list \<Rightarrow> js_error option \<times> aggregation" where
  "forEach_attendance st [] = (None, st)"
| "forEach_attendance st (a # as) =
     (case aggregate_step st a of
        Inl e \<Rightarrow> (Some e, st)
      | Inr st' \<Rightarrow> forEach_attendance st' as)"

subsection \<open>The report (lines 52 to 54 and 67 to 107)\<close>

text \<open>
  \<open>attendedSet\<close> holds the strings \<open>uid|date\<close>; only \<open>has\<close> is ever asked of it.
\<close>

definition attended_key :: "string \<Rightarrow> string \<Rightarrow> string" where
  "attended_key u d = u @ ''|'' @ d"

definition attendedSet :: "attendance_record list \<Rightarrow> string set" where
  "attendedSet attendance = set (map (\<lambda>a. attended_key (a_uid a) (a_date a)) attendance)"

record roster_row =
  r_uid :: string
  r_name :: string
  r_email :: string
  absences :: nat

record detail =
  present :: "(string \<times> string) list"
  absent :: "(string \<times> string \<times> string) list"

text \<open>
  The body of the response: objects are association lists in the order their keys were
  written, which is the order \<open>JSON.stringify\<close> prints them in.
\<close>

record report =
  dates :: "string list"
  sections :: "(string \<times> nat list) list"
  rosterTotals :: "(string \<times> nat) list"
  studentsBySection :: "(string \<times> roster_row list) list"
  details :: "(string \<times> (string \<times> detail) list) list"

definition email_or_empty :: "student \<Rightarrow> string" where
  "email_or_empty s = (case s_email s of Some e \<Rightarrow> e | None \<Rightarrow> [])"

definition section_students :: "student list \<Rightarrow> string \<Rightarrow> student list" where
  "section_students students sec = filter (\<lambda>s. s_section s = sec) students"

definition absences_of :: "string set \<Rightarrow> string list \<Rightarrow> student \<Rightarrow> nat" where
  "absences_of attended ds s =
     length (filter (\<lambda>d. attended_key (s_uid s) d \<notin> attended) ds)"

definition roster_row_of :: "string set \<Rightarrow> string list \<Rightarrow> student \<Rightarrow> roster_row" where
  "roster_row_of attended ds s =
     \<lparr>r_uid = s_uid s, r_name = s_name s, r_email = email_or_empty s,
      absences = absences_of attended ds s\<rparr>"

definition most_absences_first :: "roster_row \<Rightarrow> roster_row \<Rightarrow> int" where
  "most_absences_first a b = int (absences b) - int (absences a)"

definition detail_of :: "string set \<Rightarrow> student list \<Rightarrow> string \<Rightarrow> string \<Rightarrow> detail" where
  "detail_of attended students date sec =
     (let sectionStudents = section_students students sec
      in \<lparr>present = map (\<lambda>s. (s_name s, s_uid s))
                      (filter (\<lambda>s. attended_key (s_uid s) date \<in> attended) sectionStudents),
          absent = map (\<lambda>s. (s_name s, s_uid s, email_or_empty s))
                     (filter (\<lambda>s. attended_key (s_uid s) date \<notin> attended) sectionStudents)\<rparr>)"

text \<open>
  The response object of lines 67 to 107. \<open>dates\<close> is the default \<open>sort\<close> of the date
  set, which orders ASCII strings as \<open>sort\<close> does here. Like \<open>count_or_zero\<close>, this is
  the code for \<open>YYYY-MM-DD\<close> dates only: \<open>details[date]\<close> and the counts read by date
  are plain objects, and a date that names a member of \<open>Object.prototype\<close> or looks like
  an array index would be stored, read or printed differently.
\<close>

definition build_report ::
  "student list \<Rightarrow> attendance_record list \<Rightarrow> aggregation \<Rightarrow> report" where
  "build_report students attendance st =
     (let attended = attendedSet attendance;
          ds = sort (dateSet st)
      in \<lparr>dates = ds,
          sections = map (\<lambda>sec. (sec,
             map (count_or_zero (sectionData st sec) (objectPrototype st)) ds)) section_codes,
          rosterTotals = map (\<lambda>sec. (sec, length (section_students students sec)))
             section_codes,
          studentsBySection = map (\<lambda>sec. (sec,
             js_sort most_absences_first
               (map (roster_row_of attended ds) (section_students students sec))))
             section_codes,
          details = map (\<lambda>date. (date,
             map (\<lambda>sec. (sec, detail_of attended students date sec)) section_codes)) ds\<rparr>)"

text \<open>
  Lines 52 to 107 as a function of the two collections read and of what
  \<open>Object.prototype\<close> holds when the invocation starts: the report or the exception,
  and what \<open>Object.prototype\<close> holds afterwards.
\<close>

definition aggregate ::
  "(string \<rightharpoonup> nat) \<Rightarrow> student list \<Rightarrow> attendance_record list \<Rightarrow>
     (js_error + report) \<times> (string \<rightharpoonup> nat)" where
  "aggregate proto students attendance =
     (case forEach_attendance
             \<lparr>dateSet = [], sectionData = (\<lambda>sec. Map.empty), objectPrototype = proto\<rparr>
             attendance of
        (Some e, st) \<Rightarrow> (Inl e, objectPrototype st)
      | (None, st) \<Rightarrow> (Inr (build_report students attendance st), objectPrototype st))"

text \<open>A process that has not run the aggregation yet: nothing added to \<open>Object.prototype\<close>.\<close>

definition fresh :: "string \<rightharpoonup> nat" where
  "fresh = Map.empty"

subsection \<open>The handler: credentials, then the store (lines 13 to 50 and 103 to 107)\<close>

text \<open>
  What a handler leaves behind: the response it returns or the exception it throws.
\<close>

datatype response_body =
  Text string | ErrorJson string | SuccessJson string string | ReportJson report

record response =
  statusCode :: nat
  headers :: "(string \<times> string) list"
  body :: response_body

datatype outcome = Returns response | Throws js_error

text \<open>
  The store is the two collections. Every call that reaches it is logged, and each call
  can fail for reasons of the store's own (\<open>faults\<close>: the error the driver raises for a
  call, if any).
\<close>

record database =
  students_coll :: "student list"
  attendance_coll :: "attendance_record list"

datatype store_op =
  Connect | FindStudents | FindAttendance | FindOneStudent string
  | CreateIndex string | InsertOne attendance_record

record effect =
  outcome :: outcome
  cachedClient :: bool
  store :: database
  accesses :: "store_op list"

text \<open>
  \<open>getDb\<close>: the client is assigned before \<open>connect\<close> is awaited, so it stays cached
  even when connecting fails.
\<close>

definition getDb :: "(store_op \<Rightarrow> js_error option) \<Rightarrow> bool \<Rightarrow> js_error option \<times> bool \<times> store_op list" where
  "getDb faults cached =
     (if cached then (None, True, []) else (faults Connect, True, [Connect]))"

record environment =
  ADMIN_USER :: "string option"
  ADMIN_PASS :: "string option"
  DEV_BYPASS_TIME :: "string option"

text \<open>\<open>String.prototype.split\<close> and \<open>Array.prototype.join\<close> with a one-character separator.\<close>

fun split_on :: "char \<Rightarrow> string \<Rightarrow> string list" where
  "split_on c [] = [[]]"
| "split_on c (x # xs) =
     (if x = c then [] # split_on c xs
      else (case split_on c xs of p # ps \<Rightarrow> (x # p) # ps | [] \<Rightarrow> [[x]]))"

fun join_with :: "char \<Rightarrow> string list \<Rightarrow> string" where
  "join_with c [] = []"
| "join_with c [p] = p"
| "join_with c (p # q # ps) = p @ c # join_with c (q # ps)"

definition starts_with :: "string \<Rightarrow> string \<Rightarrow> bool" where
  "starts_with pre s = (take (length pre) s = pre)"

definition unauthorized :: "string \<Rightarrow> response" where
  "unauthorized msg =
     \<lparr>statusCode = 401,
      headers = [(''WWW-Authenticate'',
                  ''Basic realm='' @ [CHR 0x22] @ ''TA Dashboard'' @ [CHR 0x22])],
      body = Text msg\<rparr>"

definition json_headers :: "(string \<times> string) list" where
  "json_headers = [(''Content-Type'', ''application/json'')]"

text \<open>
  The handler, lines 13 to 108. The request carries the \<open>authorization\<close> header, if
  any; \<open>base64\<close> is \<open>Buffer.from(_, "base64").toString()\<close>. The result is the effect on the
  process and the store, and what \<open>Object.prototype\<close> holds afterwards.
\<close>

definition stats_handler ::
  "(string \<Rightarrow> string) \<Rightarrow> environment \<Rightarrow> (store_op \<Rightarrow> js_error option) \<Rightarrow>
   bool \<Rightarrow> (string \<rightharpoonup> nat) \<Rightarrow> database \<Rightarrow> string option \<Rightarrow> effect \<times> (string \<rightharpoonup> nat)" where
  "stats_handler base64 env faults cached proto db authorization =
     (let authHeader = (case authorization of Some h \<Rightarrow> h | None \<Rightarrow> [])
      in if \<not> starts_with ''Basic '' authHeader then
           (\<lparr>outcome = Returns (unauthorized ''Unauthorized''), cachedClient = cached,
             store = db, accesses = []\<rparr>, proto)
         else
           let decoded = base64 (drop 6 authHeader);
               parts = split_on CHR '':'' decoded;
               user = (case parts of [] \<Rightarrow> None | u # passParts \<Rightarrow> Some u);
               pass = join_with CHR '':'' (tl parts)
           in if user \<noteq> ADMIN_USER env \<or> Some pass \<noteq> ADMIN_PASS env then
                (\<lparr>outcome = Returns (unauthorized ''Invalid credentials''),
                  cachedClient = cached, store = db, accesses = []\<rparr>, proto)
              else
                (case getDb faults cached of
                   (Some e, cached', log) \<Rightarrow>
                     (\<lparr>outcome = Throws e, cachedClient = cached', store = db,
                       accesses = log\<rparr>, proto)
                 | (None, cached', log) \<Rightarrow>
                     (case faults FindStudents of
                        Some e \<Rightarrow>
                          (\<lparr>outcome = Throws e, cachedClient = cached', store = db,
                            accesses = log @ [FindStudents]\<rparr>, proto)
                      | None \<Rightarrow>
                          (case faults FindAttendance of
                             Some e \<Rightarrow>
                               (\<lparr>outcome = Throws e, cachedClient = cached', store = db,
                                 accesses = log @ [FindStudents, FindAttendance]\<rparr>, proto)
                           | None \<Rightarrow>
                               (case aggregate proto (students_coll db) (attendance_coll db) of
                                  (Inl e, proto') \<Rightarrow>
                                    (\<lparr>outcome = Throws e, cachedClient = cached',
                                      store = db,
                                      accesses = log @ [FindStudents, FindAttendance]\<rparr>,
                                     proto')
                                | (Inr r, proto') \<Rightarrow>
                                    (\<lparr>outcome = Returns \<lparr>statusCode = 200,
                                        headers = json_headers, body = ReportJson r\<rparr>,
                                      cachedClient = cached', store = db,
                                      accesses = log @ [FindStudents, FindAttendance]\<rparr>,
                                     proto'))))))"

section \<open>The Submission Validator (\<open>netlify/functions/submitAttendance.js\<close>)\<close>

text \<open>
  The own properties of \<open>WINDOWS\<close>: start and end hour of each section.
\<close>

definition WINDOWS :: "(string \<times> nat \<times> nat) list" where
  "WINDOWS = [(''0201'', (12, 13)), (''0202'', (13, 14)), (''0203'', (14, 15))]"

text \<open>
  \<open>WINDOWS[section]\<close>: an own window, or a value inherited from \<open>Object.prototype\<close>
  (truthy, with no \<open>start\<close> and no \<open>end\<close>), or \<open>undefined\<close>, which is \<open>None\<close>.
\<close>

datatype window_object = Window nat nat | Inherited

definition windows_lookup :: "string \<Rightarrow> window_object option" where
  "windows_lookup k =
     (case map_of WINDOWS k of
        Some (start, end') \<Rightarrow> Some (Window start end')
      | None \<Rightarrow>
          if k = proto_key \<or> k \<in> set object_prototype_functions then Some Inherited
          else None)"

text \<open>
  The current time as the handler sees it: the parts \<open>getEasternTimeParts(now)\<close> gives
  (\<open>Intl.DateTimeFormat\<close> prints hour and minute as two decimal digits, which
  \<open>parseInt\<close> reads back, so they are numbers here) and \<open>now.toISOString()\<close>.
\<close>

record instant =
  weekday :: string
  year :: string
  month :: string
  day :: string
  hour :: nat
  minute :: nat
  isoString :: string

text \<open>
  The request: its method, and what \<open>JSON.parse(event.body)\<close> gives: an exception,
  \<open>null\<close>, or an object whose \<open>uid\<close> and \<open>section\<close> are strings where present (the
  submission of the specification; other JSON values in the two fields are not
  modelled).
\<close>

datatype request_body = Unparsable | JsonNull | Fields "string option" "string option"

record submit_event =
  httpMethod :: string
  parsed :: request_body

definition bad_request :: "nat \<Rightarrow> string \<Rightarrow> response" where
  "bad_request status msg =
     \<lparr>statusCode = status, headers = json_headers, body = ErrorJson msg\<rparr>"

text \<open>\<open>/^\d+$/.test(uid)\<close>: one or more ASCII digits and nothing else.\<close>

definition numeric :: "string \<Rightarrow> bool" where
  "numeric u = (u \<noteq> [] \<and> list_all is_digit u)"

text \<open>Decimal printing of a number inside a template literal.\<close>

fun show_nat :: "nat \<Rightarrow> string" where
  "show_nat n =
     (if n < 10 then [''0123456789'' ! n]
      else show_nat (n div 10) @ [''0123456789'' ! (n mod 10)])"

text \<open>The en dash of the message, U+2013, as its three bytes in UTF-8.\<close>

definition en_dash :: string where
  "en_dash = [CHR 0xE2, CHR 0x80, CHR 0x93]"

definition window_message :: "string \<Rightarrow> string \<Rightarrow> string \<Rightarrow> string" where
  "window_message sec start end' =
     ''Outside attendance window for section '' @ sec @ '' ('' @ start @ '':00'' @
     en_dash @ end' @ '':00 ET)''"

definition dateStr :: "instant \<Rightarrow> string" where
  "dateStr now = year now @ ''-'' @ month now @ ''-'' @ day now"

text \<open>
  Lines 64 to 92: the response that rejects the submission, if the time does. For an
  inherited value both bounds are \<open>NaN\<close>, and no comparison with \<open>NaN\<close> holds.
\<close>

definition time_validation ::
  "environment \<Rightarrow> instant \<Rightarrow> string \<Rightarrow> window_object \<Rightarrow> response option" where
  "time_validation env now sec window =
     (if DEV_BYPASS_TIME env \<noteq> Some ''true'' then
        if weekday now \<noteq> ''Fri'' then
          Some (bad_request 400 ''Attendance can only be submitted on Fridays'')
        else
          let currentMinutes = hour now * 60 + minute now
          in case window of
               Window start end' \<Rightarrow>
                 if currentMinutes < start * 60 \<or> currentMinutes \<ge> end' * 60 then
                   Some (bad_request 400
                           (window_message sec (show_nat start) (show_nat end')))
                 else None
             | Inherited \<Rightarrow> None
      else None)"

text \<open>
  Lines 110 to 130, the body of the \<open>try\<close>: two \<open>createIndex\<close> calls and the insert. The
  unique index on \<open>(uid, date)\<close> makes the store refuse a second record of a pair with
  error code 11000.
\<close>

definition error_code :: "js_error \<Rightarrow> nat option" where
  "error_code e = (case e of StoreError c m \<Rightarrow> c | TypeError \<Rightarrow> None)"

definition duplicate_key :: js_error where
  "duplicate_key = StoreError (Some 11000) ''E11000 duplicate key error''"

definition same_pair :: "attendance_record \<Rightarrow> attendance_record \<Rightarrow> bool" where
  "same_pair a b = (a_uid a = a_uid b \<and> a_date a = a_date b)"

definition insertOne ::
  "(store_op \<Rightarrow> js_error option) \<Rightarrow> database \<Rightarrow> attendance_record \<Rightarrow> js_error + database" where
  "insertOne faults db doc =
     (case faults (InsertOne doc) of
        Some e \<Rightarrow> Inl e
      | None \<Rightarrow>
          if list_ex (same_pair doc) (attendance_coll db) then Inl duplicate_key
          else Inr (db\<lparr>attendance_coll := attendance_coll db @ [doc]\<rparr>))"

definition try_insert ::
  "(store_op \<Rightarrow> js_error option) \<Rightarrow> database \<Rightarrow> attendance_record \<Rightarrow>
   (js_error + database) \<times> store_op list" where
  "try_insert faults db doc =
     (case faults (CreateIndex ''uid_1_date_1'') of
        Some e \<Rightarrow> (Inl e, [CreateIndex ''uid_1_date_1''])
      | None \<Rightarrow>
          (case faults (CreateIndex ''date_1_section_1'') of
             Some e \<Rightarrow> (Inl e, [CreateIndex ''uid_1_date_1'', CreateIndex ''date_1_section_1''])
           | None \<Rightarrow>
               (insertOne faults db doc,
                [CreateIndex ''uid_1_date_1'', CreateIndex ''date_1_section_1'',
                 InsertOne doc])))"

text \<open>Lines 94 to 136: the roster lookup, the insert and the \<open>catch\<close>.\<close>

definition database_operations ::
  "(store_op \<Rightarrow> js_error option) \<Rightarrow> instant \<Rightarrow> bool \<Rightarrow> database \<Rightarrow> string \<Rightarrow> string \<Rightarrow> effect" where
  "database_operations faults now cached db u sec =
     (case getDb faults cached of
        (Some e, cached', log) \<Rightarrow>
          \<lparr>outcome = Throws e, cachedClient = cached', store = db, accesses = log\<rparr>
      | (None, cached', log) \<Rightarrow>
          (case faults (FindOneStudent u) of
             Some e \<Rightarrow>
               \<lparr>outcome = Throws e, cachedClient = cached', store = db,
                accesses = log @ [FindOneStudent u]\<rparr>
           | None \<Rightarrow>
               (case find (\<lambda>s. s_uid s = u) (students_coll db) of
                  None \<Rightarrow>
                    \<lparr>outcome = Returns (bad_request 400 ''UID not found in roster''),
                     cachedClient = cached', store = db,
                     accesses = log @ [FindOneStudent u]\<rparr>
                | Some student \<Rightarrow>
                    if s_section student \<noteq> sec then
                      \<lparr>outcome = Returns (bad_request 400
                         ''Section does not match your registered section''),
                       cachedClient = cached', store = db,
                       accesses = log @ [FindOneStudent u]\<rparr>
                    else
                      let doc = \<lparr>a_uid = u, a_date = dateStr now, a_section = sec,
                                 a_timestamp = isoString now\<rparr>
                      in (case try_insert faults db doc of
                            (Inl err, ops) \<Rightarrow>
                              \<lparr>outcome =
                                 (if error_code err = Some 11000 then
                                    Returns (bad_request 409
                                      ''Attendance already submitted for today'')
                                  else Throws err),
                               cachedClient = cached', store = db,
                               accesses = log @ [FindOneStudent u] @ ops\<rparr>
                          | (Inr db', ops) \<Rightarrow>
                              \<lparr>outcome = Returns \<lparr>statusCode = 200,
                                 headers = json_headers,
                                 body = SuccessJson ''Attendance recorded successfully!''
                                          (dateStr now)\<rparr>,
                               cachedClient = cached', store = db',
                               accesses = log @ [FindOneStudent u] @ ops\<rparr>))))"

text \<open>The handler, lines 37 to 137.\<close>

definition rejected :: "bool \<Rightarrow> database \<Rightarrow> response \<Rightarrow> effect" where
  "rejected cached db r =
     \<lparr>outcome = Returns r, cachedClient = cached, store = db, accesses = []\<rparr>"

definition submit_handler ::
  "environment \<Rightarrow> (store_op \<Rightarrow> js_error option) \<Rightarrow> instant \<Rightarrow> bool \<Rightarrow> database \<Rightarrow>
   submit_event \<Rightarrow> effect" where
  "submit_handler env faults now cached db event =
     (if httpMethod event \<noteq> ''POST'' then
        rejected cached db (bad_request 405 ''Method not allowed'')
      else case parsed event of
        Unparsable \<Rightarrow> rejected cached db (bad_request 400 ''Invalid JSON'')
      | JsonNull \<Rightarrow>
          \<lparr>outcome = Throws TypeError, cachedClient = cached, store = db, accesses = []\<rparr>
      | Fields uid sec \<Rightarrow>
          (case (uid, sec) of
             (Some u, Some s) \<Rightarrow>
               if u = [] \<or> s = [] then
                 rejected cached db (bad_request 400 ''Missing UID or section'')
               else if \<not> numeric u then
                 rejected cached db (bad_request 400 ''UID must be numeric'')
               else (case windows_lookup s of
                       None \<Rightarrow> rejected cached db (bad_request 400 ''Invalid section'')
                     | Some window \<Rightarrow>
                         (case time_validation env now s window of
                            Some r \<Rightarrow> rejected cached db r
                          | None \<Rightarrow> database_operations faults now cached db u s))
           | _ \<Rightarrow> rejected cached db (bad_request 400 ''Missing UID or section'')))"

section \<open>What the specification says, in its own words\<close>

text \<open>
  HTTP Basic credentials: the decoded text is \<open>user:password\<close>, the user name ending at
  the first colon. They match when both parts equal the configured pair.
\<close>

definition credentials_match :: "(string \<Rightarrow> string) \<Rightarrow> environment \<Rightarrow> string option \<Rightarrow> bool" where
  "credentials_match base64 env authorization =
     (case authorization of
        None \<Rightarrow> False
      | Some h \<Rightarrow>
          starts_with ''Basic '' h \<and>
          ADMIN_USER env = Some (takeWhile (\<lambda>c. c \<noteq> CHR '':'') (base64 (drop 6 h))) \<and>
          ADMIN_PASS env =
            Some (drop 1 (dropWhile (\<lambda>c. c \<noteq> CHR '':'') (base64 (drop 6 h)))))"

text \<open>
  The checks of the Submission Validator in the order of the specification, each with
  the condition the specification gives it, and the first of them that fails.
\<close>

datatype check =
  MissingField | NonNumericIdentity | InvalidSection | WrongDay | OutsideWindow
  | NotInRoster | SectionMismatch

definition in_window :: "string \<Rightarrow> instant \<Rightarrow> bool" where
  "in_window sec now =
     (case map_of WINDOWS sec of
        Some (start, end') \<Rightarrow>
          start * 60 \<le> hour now * 60 + minute now \<and> hour now * 60 + minute now < end' * 60
      | None \<Rightarrow> False)"

definition first_failing_check ::
  "environment \<Rightarrow> instant \<Rightarrow> student list \<Rightarrow> string option \<Rightarrow> string option \<Rightarrow> check option" where
  "first_failing_check env now roster uid sec =
     (case (uid, sec) of
        (Some u, Some s) \<Rightarrow>
          if u = [] \<or> s = [] then Some MissingField
          else if \<not> numeric u then Some NonNumericIdentity
          else if s \<notin> set section_codes then Some InvalidSection
          else if DEV_BYPASS_TIME env \<noteq> Some ''true'' \<and> weekday now \<noteq> ''Fri'' then
            Some WrongDay
          else if DEV_BYPASS_TIME env \<noteq> Some ''true'' \<and> \<not> in_window s now then
            Some OutsideWindow
          else (case find (\<lambda>st. s_uid st = u) roster of
                  None \<Rightarrow> Some NotInRoster
                | Some st \<Rightarrow> if s_section st \<noteq> s then Some SectionMismatch else None)
      | _ \<Rightarrow> Some MissingField)"

text \<open>The message the handler has for each check.\<close>

definition check_message :: "string option \<Rightarrow> check \<Rightarrow> string" where
  "check_message sec c =
     (case c of
        MissingField \<Rightarrow> ''Missing UID or section''
      | NonNumericIdentity \<Rightarrow> ''UID must be numeric''
      | InvalidSection \<Rightarrow> ''Invalid section''
      | WrongDay \<Rightarrow> ''Attendance can only be submitted on Fridays''
      | OutsideWindow \<Rightarrow>
          (case sec of
             Some s \<Rightarrow>
               (case map_of WINDOWS s of
                  Some (start, end') \<Rightarrow> window_message s (show_nat start) (show_nat end')
                | None \<Rightarrow> [])
           | None \<Rightarrow> [])
      | NotInRoster \<Rightarrow> ''UID not found in roster''
      | SectionMismatch \<Rightarrow> ''Section does not match your registered section'')"

definition touches_store :: "check \<Rightarrow> bool" where
  "touches_store c = (c = NotInRoster \<or> c = SectionMismatch)"


text \<open>
  The number of attendance records of a section on a date, and whether a pair
  \<open>(identity, date)\<close> has an attendance record.
\<close>

definition record_count :: "attendance_record list \<Rightarrow> string \<Rightarrow> string \<Rightarrow> nat" where
  "record_count attendance sec d =
     length (filter (\<lambda>a. a_section a = sec \<and> a_date a = d) attendance)"

definition has_record :: "attendance_record list \<Rightarrow> string \<Rightarrow> string \<Rightarrow> bool" where
  "has_record attendance u d = list_ex (\<lambda>a. a_uid a = u \<and> a_date a = d) attendance"

text \<open>
  An orphaned record: no roster entry has its identity.
\<close>

definition orphaned :: "student list \<Rightarrow> attendance_record \<Rightarrow> bool" where
  "orphaned roster a = (\<not> list_ex (\<lambda>s. s_uid s = a_uid a) roster)"

text \<open>
  The row the specification expects for a student: the absence count is the number of
  dates of the list for which the pair \<open>(identity, date)\<close> has no attendance record.
\<close>

definition expected_row :: "attendance_record list \<Rightarrow> string list \<Rightarrow> student \<Rightarrow> roster_row" where
  "expected_row attendance ds s =
     \<lparr>r_uid = s_uid s, r_name = s_name s,
      r_email = (case s_email s of Some e \<Rightarrow> e | None \<Rightarrow> []),
      absences = length (filter (\<lambda>d. \<not> has_record attendance (s_uid s) d) ds)\<rparr>"

text \<open>
  The present and absent lists the specification expects for a date and a section.
\<close>

definition expected_detail ::
  "attendance_record list \<Rightarrow> student list \<Rightarrow> string \<Rightarrow> string \<Rightarrow> detail" where
  "expected_detail attendance roster date sec =
     \<lparr>present = map (\<lambda>s. (s_name s, s_uid s))
                   (filter (\<lambda>s. has_record attendance (s_uid s) date)
                      (section_students roster sec)),
      absent = map (\<lambda>s. (s_name s, s_uid s, email_or_empty s))
                  (filter (\<lambda>s. \<not> has_record attendance (s_uid s) date)
                     (section_students roster sec))\<rparr>"


text \<open>The report of an invocation, if it returned one.\<close>

definition report_of :: "(js_error + report) \<times> (string \<rightharpoonup> nat) \<Rightarrow> report option" where
  "report_of x = (case fst x of Inr r \<Rightarrow> Some r | Inl e \<Rightarrow> None)"

section \<open>Example inputs\<close>

definition no_faults :: "store_op \<Rightarrow> js_error option" where
  "no_faults op = None"

definition production :: environment where
  "production = \<lparr>ADMIN_USER = Some ''ta'', ADMIN_PASS = Some ''s3cret'', DEV_BYPASS_TIME = None\<rparr>"

definition friday :: "nat \<Rightarrow> nat \<Rightarrow> instant" where
  "friday h m =
     \<lparr>weekday = ''Fri'', year = ''2026'', month = ''02'', day = ''06'', hour = h, minute = m,
      isoString = ''2026-02-06T17:30:00.000Z''\<rparr>"

definition ann :: student where
  "ann = \<lparr>s_uid = ''123'', s_name = ''Ann'', s_section = ''0201'', s_email = None\<rparr>"

definition bob :: student where
  "bob = \<lparr>s_uid = ''456'', s_name = ''Bob'', s_section = ''0201'', s_email = Some ''bob@example.edu''\<rparr>"

definition record_of :: "string \<Rightarrow> string \<Rightarrow> string \<Rightarrow> attendance_record" where
  "record_of u d sec = \<lparr>a_uid = u, a_date = d, a_section = sec, a_timestamp = []\<rparr>"

definition post :: "string \<Rightarrow> string \<Rightarrow> submit_event" where
  "post u sec = \<lparr>httpMethod = ''POST'', parsed = Fields (Some u) (Some sec)\<rparr>"


definition lab_db :: "attendance_record list \<Rightarrow> database" where
  "lab_db records = \<lparr>students_coll = [ann, bob], attendance_coll = records\<rparr>"

definition submitted :: attendance_record where
  "submitted = \<lparr>a_uid = ''123'', a_date = ''2026-02-06'', a_section = ''0201'',
                 a_timestamp = ''2026-02-06T17:30:00.000Z''\<rparr>"

definition week1 :: "attendance_record list" where
  "week1 = [record_of ''123'' ''2026-02-06'' ''0201'']"

section \<open>The Submission Validator: proofs\<close>



lemma split_on_nonempty: "split_on c s \<noteq> []"
  by (induction s) (auto split: list.splits)

lemma first_split_on:
  "(case split_on c s of [] \<Rightarrow> None | u # passParts \<Rightarrow> Some u) =
     Some (takeWhile (\<lambda>x. x \<noteq> c) s)"
  by (induction s) (auto split: list.splits simp: split_on_nonempty)

lemma join_split_on: "join_with c (split_on c s) = s"
proof (induction s)
  case Nil
  then show ?case by simp
next
  case (Cons x xs)
  obtain p ps where sp: "split_on c xs = p # ps"
    using split_on_nonempty [of c xs] by (cases "split_on c xs") auto
  show ?case using Cons sp by (cases ps) auto
qed

lemma join_tl_split_on:
  "join_with c (tl (split_on c s)) = drop 1 (dropWhile (\<lambda>x. x \<noteq> c) s)"
proof (induction s)
  case Nil
  then show ?case by simp
next
  case (Cons x xs)
  obtain p ps where sp: "split_on c xs = p # ps"
    using split_on_nonempty [of c xs] by (cases "split_on c xs") auto
  show ?case
  proof (cases "x = c")
    case True
    then show ?thesis using join_split_on [of c xs] by simp
  next
    case False
    then show ?thesis using Cons sp by simp
  qed
qed


lemma time_validation_passes:
  assumes "DEV_BYPASS_TIME env = Some ''true'' \<or>
         (weekday now = ''Fri'' \<and> start * 60 \<le> hour now * 60 + minute now
          \<and> hour now * 60 + minute now < end' * 60)"
  shows "time_validation env now s (Window start end') = None"
  using assms by (auto simp: time_validation_def Let_def)







text \<open>
  An identity that is missing or not numeric is answered before any call to the store.
\<close>

lemma not_numeric_rejected_before_store:
  assumes "case uid of None \<Rightarrow> True | Some u \<Rightarrow> \<not> numeric u"
  shows "\<exists>status msg. submit_handler env faults now cached db
            \<lparr>httpMethod = m, parsed = Fields uid sec\<rparr> =
          rejected cached db (bad_request status msg)"
  using assms
  by (auto simp: submit_handler_def split: option.splits)

text \<open>
  For a section that is not a name inherited from \<open>Object.prototype\<close>, and a store that
  answers the roster lookup, the handler's answer is the one of the first failing check
  of the specification, and only the two roster checks reach the store.
\<close>

lemma map_of_WINDOWS_codes: "map_of WINDOWS s \<noteq> None \<longleftrightarrow> s \<in> set section_codes"
  by (auto simp: WINDOWS_def section_codes_def)

lemma windows_lookup_plain:
  assumes "s \<noteq> proto_key" and "s \<notin> set object_prototype_functions"
  shows "windows_lookup s =
           (case map_of WINDOWS s of Some (start, end') \<Rightarrow> Some (Window start end') | None \<Rightarrow> None)"
  using assms by (simp add: windows_lookup_def split: option.splits)

lemma checks_in_order:
  assumes "case sec of Some s \<Rightarrow> s \<noteq> proto_key \<and> s \<notin> set object_prototype_functions
           | None \<Rightarrow> True"
    and "cached \<or> faults Connect = None"
    and "case uid of Some u \<Rightarrow> faults (FindOneStudent u) = None | None \<Rightarrow> True"
    and "first_failing_check env now (students_coll db) uid sec = Some c"
  shows "outcome (submit_handler env faults now cached db
                    \<lparr>httpMethod = ''POST'', parsed = Fields uid sec\<rparr>) =
           Returns (bad_request 400 (check_message sec c))
         \<and> store (submit_handler env faults now cached db
                    \<lparr>httpMethod = ''POST'', parsed = Fields uid sec\<rparr>) = db
         \<and> (\<not> touches_store c \<longrightarrow>
              accesses (submit_handler env faults now cached db
                    \<lparr>httpMethod = ''POST'', parsed = Fields uid sec\<rparr>) = [])"
proof (cases "\<exists>u s. uid = Some u \<and> sec = Some s \<and> u \<noteq> [] \<and> s \<noteq> [] \<and> numeric u")
  case False
  then show ?thesis using assms(4)
    by (auto simp: submit_handler_def first_failing_check_def check_message_def rejected_def
        touches_store_def split: option.splits if_splits)
next
  case True
  then obtain u s where us: "uid = Some u" "sec = Some s" "u \<noteq> []" "s \<noteq> []" "numeric u"
    by blast
  have wl: "windows_lookup s =
           (case map_of WINDOWS s of Some (start, end') \<Rightarrow> Some (Window start end') | None \<Rightarrow> None)"
    using assms(1) us(2) by (simp add: windows_lookup_plain)
  show ?thesis
  proof (cases "map_of WINDOWS s")
    case None
    then have "s \<notin> set section_codes" using map_of_WINDOWS_codes [of s] by simp
    then show ?thesis using assms(4) us None wl
      by (auto simp: submit_handler_def first_failing_check_def check_message_def rejected_def
          touches_store_def)
  next
    case (Some w)
    obtain start end' where w: "w = (start, end')" by (cases w)
    have sc: "s \<in> set section_codes" using map_of_WINDOWS_codes [of s] Some by simp
    have g: "getDb faults cached = (None, True, if cached then [] else [Connect])"
      using assms(2) by (auto simp: getDb_def)
    have f: "faults (FindOneStudent u) = None" using assms(3) us(1) by simp
    have h: "submit_handler env faults now cached db
                    \<lparr>httpMethod = ''POST'', parsed = Fields uid sec\<rparr> =
             (case time_validation env now s (Window start end') of
                Some r \<Rightarrow> rejected cached db r
              | None \<Rightarrow> database_operations faults now cached db u s)"
      using us Some w wl by (simp add: submit_handler_def)
    have ffc: "first_failing_check env now (students_coll db) uid sec =
          (if DEV_BYPASS_TIME env \<noteq> Some ''true'' \<and> weekday now \<noteq> ''Fri'' then
            Some WrongDay
          else if DEV_BYPASS_TIME env \<noteq> Some ''true'' \<and> \<not> in_window s now then
            Some OutsideWindow
          else (case find (\<lambda>st. s_uid st = u) (students_coll db) of
                  None \<Rightarrow> Some NotInRoster
                | Some st \<Rightarrow> if s_section st \<noteq> s then Some SectionMismatch else None))"
      using us sc by (simp add: first_failing_check_def)
    have iw: "in_window s now \<longleftrightarrow>
                start * 60 \<le> hour now * 60 + minute now \<and> hour now * 60 + minute now < end' * 60"
      using Some w by (simp add: in_window_def)
    have msg: "check_message sec OutsideWindow = window_message s (show_nat start) (show_nat end')"
      using us(2) Some w by (simp add: check_message_def)
    consider (day) "DEV_BYPASS_TIME env \<noteq> Some ''true''" "weekday now \<noteq> ''Fri''"
      | (win) "DEV_BYPASS_TIME env \<noteq> Some ''true''" "weekday now = ''Fri''" "\<not> in_window s now"
      | (pass) "DEV_BYPASS_TIME env = Some ''true'' \<or> (weekday now = ''Fri'' \<and> in_window s now)"
      by blast
    then show ?thesis
    proof cases
      case day
      then have "c = WrongDay" using assms(4) ffc by simp
      moreover have "time_validation env now s (Window start end') =
          Some (bad_request 400 ''Attendance can only be submitted on Fridays'')"
        using day by (simp add: time_validation_def)
      ultimately show ?thesis
        by (simp add: h rejected_def check_message_def touches_store_def)
    next
      case win
      then have "c = OutsideWindow" using assms(4) ffc by simp
      moreover have "time_validation env now s (Window start end') =
          Some (bad_request 400 (window_message s (show_nat start) (show_nat end')))"
        using win iw by (auto simp: time_validation_def Let_def not_le not_less)
      ultimately show ?thesis
        by (simp add: h rejected_def msg touches_store_def)
    next
      case pass
      then have tv: "time_validation env now s (Window start end') = None"
        using iw by (intro time_validation_passes) auto
      have ffc': "(case find (\<lambda>st. s_uid st = u) (students_coll db) of
                  None \<Rightarrow> Some NotInRoster
                | Some st \<Rightarrow> if s_section st \<noteq> s then Some SectionMismatch else None) = Some c"
        using assms(4) ffc pass by (auto split: if_splits)
      show ?thesis
      proof (cases "find (\<lambda>st. s_uid st = u) (students_coll db)")
        case None
        then have "c = NotInRoster" using ffc' by simp
        then show ?thesis using None g f
          by (simp add: h tv database_operations_def check_message_def touches_store_def)
      next
        case (Some st)
        then have "c = SectionMismatch" and "s_section st \<noteq> s"
          using ffc' by (auto split: if_splits)
        then show ?thesis using Some g f
          by (simp add: h tv database_operations_def check_message_def touches_store_def)
      qed
    qed
  qed
qed

text \<open>
  Claim C5. The checks run in the order missing field, non-numeric identity, invalid
  section, wrong day, outside window, identity not in roster, section mismatch, and the
  first that fails decides the answer. The section \<open>toString\<close> is not a configured code,
  yet \<open>WINDOWS[section]\<close> finds the function every object inherits: the handler does not
  answer \<open>Invalid section\<close>, passes the time check (its bounds are \<open>NaN\<close>) and answers
  from the roster lookup instead.
\<close>

theorem inherited_section_reaches_store:
  "submit_handler production no_faults (friday 12 30) False
     (lab_db []) (post ''123'' ''toString'') =
   \<lparr>outcome = Returns (bad_request 400 ''Section does not match your registered section''),
    cachedClient = True, store = (lab_db []),
    accesses = [Connect, FindOneStudent ''123'']\<rparr>"
  by (simp add: submit_handler_def post_def numeric_def is_digit_def windows_lookup_def
      WINDOWS_def proto_key_def object_prototype_functions_def time_validation_def
      production_def friday_def database_operations_def getDb_def no_faults_def ann_def bob_def lab_db_def)

section \<open>The Stats Aggregator's credential check\<close>

text \<open>
  Claim C9. A request to the stats handler whose credentials are missing or do not match
  the configured user and password gets status 401 with a \<open>WWW-Authenticate\<close>
  challenge, and the handler has made no call to the store: the store is read only
  once the credentials have matched.
\<close>

theorem stats_rejects_before_store:
  assumes "\<not> credentials_match base64 env authorization"
  shows "\<exists>r. outcome (fst (stats_handler base64 env faults cached proto db authorization)) = Returns r
           \<and> statusCode r = 401
           \<and> map_of (headers r) ''WWW-Authenticate'' =
               Some (''Basic realm='' @ [CHR 0x22] @ ''TA Dashboard'' @ [CHR 0x22])
           \<and> accesses (fst (stats_handler base64 env faults cached proto db authorization)) = []
           \<and> store (fst (stats_handler base64 env faults cached proto db authorization)) = db
           \<and> snd (stats_handler base64 env faults cached proto db authorization) = proto"
proof (cases authorization)
  case None
  then show ?thesis
    by (simp add: stats_handler_def starts_with_def unauthorized_def)
next
  case (Some h)
  show ?thesis
  proof (cases "starts_with ''Basic '' h")
    case False
    then show ?thesis using Some
      by (simp add: stats_handler_def unauthorized_def)
  next
    case True
    with assms Some
    have "(case split_on CHR '':'' (base64 (drop 6 h)) of [] \<Rightarrow> None
           | u # passParts \<Rightarrow> Some u) \<noteq> ADMIN_USER env
          \<or> Some (join_with CHR '':'' (tl (split_on CHR '':'' (base64 (drop 6 h))))) \<noteq> ADMIN_PASS env"
      by (auto simp: credentials_match_def first_split_on join_tl_split_on)
    then show ?thesis using Some True
      by (auto simp: stats_handler_def unauthorized_def Let_def)
  qed
qed

theorem stats_rejects_before_store_witness:
  "\<not> credentials_match (\<lambda>s. s) production (Some ''Basic ta:wrong'')
   \<and> (\<exists>r. outcome (fst (stats_handler (\<lambda>s. s) production no_faults False fresh
                \<lparr>students_coll = [ann], attendance_coll = []\<rparr> (Some ''Basic ta:wrong''))) = Returns r
           \<and> statusCode r = 401
           \<and> map_of (headers r) ''WWW-Authenticate'' =
               Some (''Basic realm='' @ [CHR 0x22] @ ''TA Dashboard'' @ [CHR 0x22])
           \<and> accesses (fst (stats_handler (\<lambda>s. s) production no_faults False fresh
                \<lparr>students_coll = [ann], attendance_coll = []\<rparr> (Some ''Basic ta:wrong''))) = []
           \<and> store (fst (stats_handler (\<lambda>s. s) production no_faults False fresh
                \<lparr>students_coll = [ann], attendance_coll = []\<rparr> (Some ''Basic ta:wrong''))) = \<lparr>students_coll = [ann], attendance_coll = []\<rparr>
           \<and> snd (stats_handler (\<lambda>s. s) production no_faults False fresh
                \<lparr>students_coll = [ann], attendance_coll = []\<rparr> (Some ''Basic ta:wrong'')) = fresh)"
proof -
  have h: "\<not> credentials_match (\<lambda>s. s) production (Some ''Basic ta:wrong'')"
    by (simp add: credentials_match_def production_def starts_with_def)
  show ?thesis
    using h stats_rejects_before_store [OF h, of no_faults False fresh "\<lparr>students_coll = [ann], attendance_coll = []\<rparr>"]
    by blast
qed

section \<open>The Stats Aggregator: the counting loop\<close>

lemma aggregate_step_dateSet:
  "aggregate_step st a = Inr st' \<Longrightarrow> dateSet st' = set_add (dateSet st) (a_date a)"
  by (auto simp: aggregate_step_def Let_def split: property_value.splits if_splits)

lemma set_set_add: "set (set_add xs x) = insert x (set xs)"
  by (auto simp: set_add_def)

lemma distinct_set_add: "distinct xs \<Longrightarrow> distinct (set_add xs x)"
  by (auto simp: set_add_def)

lemma forEach_dateSet:
  "forEach_attendance st as = (None, st') \<Longrightarrow>
     set (dateSet st') = set (dateSet st) \<union> a_date ` set as
     \<and> (distinct (dateSet st) \<longrightarrow> distinct (dateSet st'))"
proof (induction as arbitrary: st)
  case Nil
  then show ?case by simp
next
  case (Cons a as)
  then obtain st1 where s1: "aggregate_step st a = Inr st1"
    and rest: "forEach_attendance st1 as = (None, st')"
    by (auto split: sum.splits)
  from Cons.IH [OF rest] aggregate_step_dateSet [OF s1]
  show ?case by (auto simp: set_set_add distinct_set_add)
qed

lemma sectionData_lookup_clean:
  "k \<noteq> proto_key \<Longrightarrow>
   sectionData_lookup Map.empty k =
     (if k \<in> set section_codes then OwnObject
      else if k \<in> set object_prototype_functions then BuiltinFunction else Undefined)"
  by (simp add: sectionData_lookup_def)

lemma aggregate_step_clean:
  assumes "objectPrototype st = Map.empty" and "a_section a \<noteq> proto_key"
  shows "\<exists>st'. aggregate_step st a = Inr st' \<and> objectPrototype st' = Map.empty
     \<and> (\<forall>sec d. sec \<in> set section_codes \<longrightarrow>
           count_or_zero (sectionData st' sec) Map.empty d =
           count_or_zero (sectionData st sec) Map.empty d
             + (if a_section a = sec \<and> a_date a = d then 1 else 0))"
  using assms
  by (auto simp: aggregate_step_def Let_def sectionData_lookup_clean count_or_zero_def)

lemma record_count_Cons:
  "record_count (a # as) sec d =
     (if a_section a = sec \<and> a_date a = d then 1 else 0) + record_count as sec d"
  by (simp add: record_count_def)

lemma forEach_clean:
  assumes "objectPrototype st = Map.empty" and "list_all (\<lambda>a. a_section a \<noteq> proto_key) as"
  shows "\<exists>st'. forEach_attendance st as = (None, st') \<and> objectPrototype st' = Map.empty
     \<and> (\<forall>sec d. sec \<in> set section_codes \<longrightarrow>
           count_or_zero (sectionData st' sec) Map.empty d =
           count_or_zero (sectionData st sec) Map.empty d + record_count as sec d)"
  using assms
proof (induction as arbitrary: st)
  case Nil
  then show ?case by (simp add: record_count_def)
next
  case (Cons a as)
  from Cons.prems have a: "a_section a \<noteq> proto_key"
    and as: "list_all (\<lambda>a. a_section a \<noteq> proto_key) as" by simp_all
  from aggregate_step_clean [OF Cons.prems(1) a]
  obtain st1 where s1: "aggregate_step st a = Inr st1" and p1: "objectPrototype st1 = Map.empty"
    and c1: "\<And>sec d. sec \<in> set section_codes \<Longrightarrow>
           count_or_zero (sectionData st1 sec) Map.empty d =
           count_or_zero (sectionData st sec) Map.empty d
             + (if a_section a = sec \<and> a_date a = d then 1 else 0)"
    by blast
  from Cons.IH [OF p1 as]
  obtain st' where r: "forEach_attendance st1 as = (None, st')"
    and p': "objectPrototype st' = Map.empty"
    and c': "\<And>sec d. sec \<in> set section_codes \<Longrightarrow>
           count_or_zero (sectionData st' sec) Map.empty d =
           count_or_zero (sectionData st1 sec) Map.empty d + record_count as sec d"
    by blast
  have "forEach_attendance st (a # as) = (None, st')" using s1 r by simp
  moreover have "\<forall>sec d. sec \<in> set section_codes \<longrightarrow>
           count_or_zero (sectionData st' sec) Map.empty d =
           count_or_zero (sectionData st sec) Map.empty d + record_count (a # as) sec d"
    using c1 c' by (simp add: record_count_Cons)
  ultimately show ?case using p' by blast
qed

lemma iso_date_length: "iso_date d \<Longrightarrow> length d = 10"
  by (erule iso_date.elims) simp_all

lemma attended_key_inject:
  assumes "length d = length d'"
  shows "attended_key u d = attended_key u' d' \<longleftrightarrow> u = u' \<and> d = d'"
proof -
  have "attended_key u d = attended_key u' d' \<longleftrightarrow> (u @ ''|'') @ d = (u' @ ''|'') @ d'"
    by (simp add: attended_key_def)
  also have "\<dots> \<longleftrightarrow> u @ ''|'' = u' @ ''|'' \<and> d = d'"
    using assms by (rule append_eq_append_conv [OF disjI2])
  finally show ?thesis by auto
qed

lemma attendedSet_has_record:
  assumes "list_all (\<lambda>a. iso_date (a_date a)) attendance" and "iso_date d"
  shows "attended_key u d \<in> attendedSet attendance \<longleftrightarrow> has_record attendance u d"
proof -
  have "attended_key (a_uid a) (a_date a) = attended_key u d \<longleftrightarrow> a_uid a = u \<and> a_date a = d"
    if "a \<in> set attendance" for a
  proof -
    from that assms(1) have "iso_date (a_date a)" by (simp add: list_all_iff)
    then have "length (a_date a) = length d" using assms(2) by (simp add: iso_date_length)
    then show ?thesis by (rule attended_key_inject)
  qed
  then show ?thesis
    by (auto simp: attendedSet_def has_record_def list_ex_iff image_iff) metis+
qed

lemma js_sort_sort_key:
  "js_sort most_absences_first xs = sort_key (\<lambda>r. - int (absences r)) xs"
proof -
  have "insert_by most_absences_first x ys = insort_key (\<lambda>r. - int (absences r)) x ys" for x ys
    by (induction ys) (auto simp: most_absences_first_def)
  then have "insert_by most_absences_first = insort_key (\<lambda>r. - int (absences r))"
    by (intro ext)
  then show ?thesis by (simp add: js_sort_def sort_key_def)
qed

lemma map_of_keys:
  "map_of (map (\<lambda>k. (k, f k)) ks) k = (if k \<in> set ks then Some (f k) else None)"
  by (induction ks) auto

lemma aggregate_Inr:
  assumes "aggregate proto students attendance = (Inr r, proto')"
  shows "\<exists>st. forEach_attendance
             \<lparr>dateSet = [], sectionData = (\<lambda>sec. Map.empty), objectPrototype = proto\<rparr>
             attendance = (None, st)
           \<and> r = build_report students attendance st \<and> proto' = objectPrototype st"
  using assms by (auto simp: aggregate_def split: prod.splits option.splits)

lemma build_report_dates:
  assumes "forEach_attendance
             \<lparr>dateSet = [], sectionData = (\<lambda>sec. Map.empty), objectPrototype = proto\<rparr>
             attendance = (None, st)"
  shows "sorted (dates (build_report students attendance st))"
    and "distinct (dates (build_report students attendance st))"
    and "set (dates (build_report students attendance st)) = a_date ` set attendance"
  using forEach_dateSet [OF assms] by (simp_all add: build_report_def Let_def)

lemma absences_of_expected:
  assumes "list_all (\<lambda>a. iso_date (a_date a)) attendance"
    and "set ds \<subseteq> a_date ` set attendance"
  shows "roster_row_of (attendedSet attendance) ds s = expected_row attendance ds s"
proof -
  have "iso_date d" if "d \<in> set ds" for d
    using that assms by (auto simp: list_all_iff)
  then have "filter (\<lambda>d. attended_key (s_uid s) d \<notin> attendedSet attendance) ds =
        filter (\<lambda>d. \<not> has_record attendance (s_uid s) d) ds"
    by (intro filter_cong refl) (simp add: attendedSet_has_record [OF assms(1)])
  then show ?thesis
    by (simp add: roster_row_of_def expected_row_def absences_of_def email_or_empty_def)
qed

lemma aggregate_clean:
  assumes "list_all (\<lambda>a. a_section a \<noteq> proto_key) attendance"
  shows "\<exists>st. forEach_attendance
             \<lparr>dateSet = [], sectionData = (\<lambda>sec. Map.empty), objectPrototype = fresh\<rparr>
             attendance = (None, st)
     \<and> objectPrototype st = Map.empty
     \<and> (\<forall>sec d. sec \<in> set section_codes \<longrightarrow>
           count_or_zero (sectionData st sec) Map.empty d = record_count attendance sec d)
     \<and> aggregate fresh students attendance = (Inr (build_report students attendance st), fresh)"
proof -
  have "objectPrototype \<lparr>dateSet = [], sectionData = (\<lambda>sec. Map.empty), objectPrototype = fresh\<rparr>
        = Map.empty" by (simp add: fresh_def)
  from forEach_clean [OF this assms] obtain st where
    run: "forEach_attendance
             \<lparr>dateSet = [], sectionData = (\<lambda>sec. Map.empty), objectPrototype = fresh\<rparr>
             attendance = (None, st)"
    and p: "objectPrototype st = Map.empty"
    and c: "\<forall>sec d. sec \<in> set section_codes \<longrightarrow>
           count_or_zero (sectionData st sec) Map.empty d =
           count_or_zero (sectionData \<lparr>dateSet = [], sectionData = (\<lambda>sec. Map.empty), objectPrototype = fresh\<rparr> sec) Map.empty d + record_count attendance sec d"
    by blast
  have "aggregate fresh students attendance = (Inr (build_report students attendance st), fresh)"
    using run p by (simp add: aggregate_def fresh_def)
  then show ?thesis using run p c by (auto simp: count_or_zero_def)
qed

lemma report_counts:
  assumes "list_all (\<lambda>a. a_section a \<noteq> proto_key) attendance"
  shows "\<exists>r. aggregate fresh students attendance = (Inr r, fresh)
     \<and> sorted (dates r) \<and> distinct (dates r) \<and> set (dates r) = a_date ` set attendance
     \<and> sections r = map (\<lambda>sec. (sec, map (record_count attendance sec) (dates r))) section_codes
     \<and> rosterTotals r =
         map (\<lambda>sec. (sec, length (filter (\<lambda>s. s_section s = sec) students))) section_codes"
proof -
  from aggregate_clean [OF assms, of students] obtain st where
    run: "forEach_attendance
             \<lparr>dateSet = [], sectionData = (\<lambda>sec. Map.empty), objectPrototype = fresh\<rparr>
             attendance = (None, st)"
    and p: "objectPrototype st = Map.empty"
    and c: "\<And>sec d. sec \<in> set section_codes \<Longrightarrow>
           count_or_zero (sectionData st sec) Map.empty d = record_count attendance sec d"
    and a: "aggregate fresh students attendance = (Inr (build_report students attendance st), fresh)"
    by blast
  have "sections (build_report students attendance st) =
        map (\<lambda>sec. (sec, map (record_count attendance sec)
                            (dates (build_report students attendance st)))) section_codes"
    using c p by (simp add: build_report_def Let_def cong: map_cong)
  moreover have "rosterTotals (build_report students attendance st) =
         map (\<lambda>sec. (sec, length (filter (\<lambda>s. s_section s = sec) students))) section_codes"
    by (simp add: build_report_def Let_def section_students_def)
  ultimately show ?thesis
    using a build_report_dates [OF run, of students] by blast
qed

lemma week1_wellformed:
  "list_all (\<lambda>a. iso_date (a_date a)) week1" "list_all (\<lambda>a. a_section a \<noteq> proto_key) week1"
  by (simp_all add: week1_def record_of_def is_digit_def proto_key_def)

section \<open>The Stats Aggregator: the report\<close>

text \<open>
  Claim C7. Whenever the aggregation returns a report, \<open>studentsBySection[code]\<close> of a
  configured code holds exactly the roster students of that section, each with the
  number of dates of the report's date list for which the pair \<open>(identity, date)\<close> has
  no attendance record as absence count, ordered by absence count descending, students
  with equal counts in roster order. Dates are \<open>YYYY-MM-DD\<close>, as the data model has them.
\<close>

theorem students_ranked_by_absences:
  assumes "list_all (\<lambda>a. iso_date (a_date a)) attendance"
    and "aggregate proto students attendance = (Inr r, proto')"
    and "sec \<in> set section_codes"
  shows "\<exists>rows. map_of (studentsBySection r) sec = Some rows
     \<and> mset rows = mset (map (expected_row attendance (dates r))
                              (filter (\<lambda>s. s_section s = sec) students))
     \<and> sorted_wrt (\<lambda>a b. absences b \<le> absences a) rows
     \<and> (\<forall>k. filter (\<lambda>row. absences row = k) rows =
             filter (\<lambda>row. absences row = k)
               (map (expected_row attendance (dates r))
                  (filter (\<lambda>s. s_section s = sec) students)))"
proof -
  from aggregate_Inr [OF assms(2)] obtain st where
    run: "forEach_attendance
             \<lparr>dateSet = [], sectionData = (\<lambda>sec. Map.empty), objectPrototype = proto\<rparr>
             attendance = (None, st)"
    and r: "r = build_report students attendance st" by blast
  define ds where "ds = dates r"
  define xs where "xs = map (expected_row attendance ds) (section_students students sec)"
  define rows where "rows = sort_key (\<lambda>r. - int (absences r)) xs"
  have sub: "set ds \<subseteq> a_date ` set attendance"
    using build_report_dates(3) [OF run] by (simp add: ds_def r)
  have ds: "ds = sort (dateSet st)" by (simp add: ds_def r build_report_def Let_def)
  have "studentsBySection r = map (\<lambda>sec. (sec,
             js_sort most_absences_first
               (map (roster_row_of (attendedSet attendance) ds) (section_students students sec))))
             section_codes"
    by (simp add: r build_report_def Let_def ds)
  then have "map_of (studentsBySection r) sec = Some (js_sort most_absences_first
               (map (roster_row_of (attendedSet attendance) ds) (section_students students sec)))"
    using assms(3) by (simp add: map_of_keys)
  also have "map (roster_row_of (attendedSet attendance) ds) (section_students students sec) = xs"
    by (simp add: xs_def absences_of_expected [OF assms(1) sub])
  finally have look: "map_of (studentsBySection r) sec = Some rows"
    by (simp add: rows_def js_sort_sort_key)
  have m: "mset rows = mset xs" by (simp add: rows_def)
  have "sorted (map (\<lambda>r. - int (absences r)) rows)" by (simp add: rows_def)
  then have so: "sorted_wrt (\<lambda>a b. absences b \<le> absences a) rows"
    by (simp add: sorted_map)
  have st: "filter (\<lambda>row. absences row = k) rows = filter (\<lambda>row. absences row = k) xs" for k
  proof -
    have "filter (\<lambda>row. - int (absences row) = - int k) rows =
          filter (\<lambda>row. - int (absences row) = - int k) xs"
      unfolding rows_def by (rule sort_key_stable)
    then show ?thesis by simp
  qed
  show ?thesis using look m so st unfolding xs_def ds_def section_students_def by blast
qed

theorem students_ranked_by_absences_witness:
  "list_all (\<lambda>a. iso_date (a_date a)) week1 \<and> ''0201'' \<in> set section_codes
   \<and> (\<exists>r rows. aggregate fresh [ann, bob] week1 = (Inr r, fresh)
     \<and> map_of (studentsBySection r) ''0201'' = Some rows
     \<and> mset rows = mset (map (expected_row week1 (dates r))
                              (filter (\<lambda>s. s_section s = ''0201'') [ann, bob]))
     \<and> sorted_wrt (\<lambda>a b. absences b \<le> absences a) rows
     \<and> (\<forall>k. filter (\<lambda>row. absences row = k) rows =
             filter (\<lambda>row. absences row = k)
               (map (expected_row week1 (dates r))
                  (filter (\<lambda>s. s_section s = ''0201'') [ann, bob]))))"
proof -
  have sec: "''0201'' \<in> set section_codes" by (simp add: section_codes_def)
  from report_counts [OF week1_wellformed(2), of "[ann, bob]"]
  obtain r where agg: "aggregate fresh [ann, bob] week1 = (Inr r, fresh)" by blast
  from students_ranked_by_absences [OF week1_wellformed(1) agg sec] agg sec week1_wellformed(1)
  show ?thesis by blast
qed

text \<open>
  Claim C6. \<open>dates\<close> is the sorted list of the distinct dates of the attendance records;
  for each configured section, \<open>sections[code]\<close> has one entry per date, the number of
  attendance records of that section and date, and \<open>rosterTotals[code]\<close> is the number
  of roster students of the section. Dates are \<open>YYYY-MM-DD\<close>, as the data model has
  them; sections are those of the data model, or any string but \<open>__proto__\<close>; the
  process is one whose \<open>Object.prototype\<close> is untouched.
\<close>

theorem report_dates_and_counts:
  assumes "list_all (\<lambda>a. iso_date (a_date a)) attendance"
    and "list_all (\<lambda>a. a_section a \<noteq> proto_key) attendance"
    and "sec \<in> set section_codes"
  shows "\<exists>r. aggregate fresh students attendance = (Inr r, fresh)
     \<and> sorted (dates r) \<and> distinct (dates r) \<and> set (dates r) = a_date ` set attendance
     \<and> map_of (sections r) sec = Some (map (record_count attendance sec) (dates r))
     \<and> map_of (rosterTotals r) sec = Some (length (filter (\<lambda>s. s_section s = sec) students))"
proof -
  from report_counts [OF assms(2), of students] obtain r where
    a: "aggregate fresh students attendance = (Inr r, fresh)"
    and d: "sorted (dates r)" "distinct (dates r)" "set (dates r) = a_date ` set attendance"
    and s: "sections r = map (\<lambda>sec. (sec, map (record_count attendance sec) (dates r))) section_codes"
    and t: "rosterTotals r =
         map (\<lambda>sec. (sec, length (filter (\<lambda>s. s_section s = sec) students))) section_codes"
    by blast
  have "map_of (sections r) sec = Some (map (record_count attendance sec) (dates r))"
    using assms(3) by (simp add: s map_of_keys)
  moreover have "map_of (rosterTotals r) sec =
      Some (length (filter (\<lambda>s. s_section s = sec) students))"
    using assms(3) by (simp add: t map_of_keys)
  ultimately show ?thesis using a d by blast
qed

theorem report_dates_and_counts_witness:
  "list_all (\<lambda>a. iso_date (a_date a)) week1
   \<and> list_all (\<lambda>a. a_section a \<noteq> proto_key) week1 \<and> ''0201'' \<in> set section_codes
   \<and> (\<exists>r. aggregate fresh [ann, bob] week1 = (Inr r, fresh)
     \<and> sorted (dates r) \<and> distinct (dates r) \<and> set (dates r) = a_date ` set week1
     \<and> map_of (sections r) ''0201'' = Some (map (record_count week1 ''0201'') (dates r))
     \<and> map_of (rosterTotals r) ''0201'' =
          Some (length (filter (\<lambda>s. s_section s = ''0201'') [ann, bob])))"
proof -
  have sec: "''0201'' \<in> set section_codes" by (simp add: section_codes_def)
  show ?thesis
    using report_dates_and_counts [OF week1_wellformed sec, of "[ann, bob]"]
      week1_wellformed sec
    by blast
qed

text \<open>
  The condition on the section names is needed. A record whose section is \<open>__proto__\<close>
  is written to \<open>Object.prototype\<close>, from where every section's object inherits it: it
  is counted in all three sections, none of which it names.
\<close>

lemma prototype_section_counted_everywhere:
  "map_option sections
     (report_of (aggregate fresh [ann, bob] [record_of ''123'' ''2026-02-06'' proto_key])) =
     Some [(''0201'', [1]), (''0202'', [1]), (''0203'', [1])]
   \<and> record_count [record_of ''123'' ''2026-02-06'' proto_key] ''0201'' ''2026-02-06'' = 0
   \<and> record_count [record_of ''123'' ''2026-02-06'' proto_key] ''0202'' ''2026-02-06'' = 0
   \<and> record_count [record_of ''123'' ''2026-02-06'' proto_key] ''0203'' ''2026-02-06'' = 0"
  by (simp add: report_of_def aggregate_def fresh_def aggregate_step_def set_add_def
      sectionData_lookup_def section_codes_def proto_key_def build_report_def count_or_zero_def
      Let_def record_of_def record_count_def)

lemma repeated_invocation_same_report:
  assumes "list_all (\<lambda>a. iso_date (a_date a)) attendance"
    and "list_all (\<lambda>a. a_section a \<noteq> proto_key) attendance"
  shows "aggregate (snd (aggregate fresh students attendance)) students attendance =
         aggregate fresh students attendance"
  using report_counts [OF assms(2), of students] by auto

lemma stats_handler_authorized:
  assumes "credentials_match base64 env authorization"
    and "cached \<or> faults Connect = None" and "faults FindStudents = None"
    and "faults FindAttendance = None"
  shows "stats_handler base64 env faults cached proto db authorization =
     (case aggregate proto (students_coll db) (attendance_coll db) of
        (Inl e, proto') \<Rightarrow>
          (\<lparr>outcome = Throws e, cachedClient = True, store = db,
            accesses = (if cached then [] else [Connect]) @ [FindStudents, FindAttendance]\<rparr>,
           proto')
      | (Inr r, proto') \<Rightarrow>
          (\<lparr>outcome = Returns \<lparr>statusCode = 200, headers = json_headers, body = ReportJson r\<rparr>,
            cachedClient = True, store = db,
            accesses = (if cached then [] else [Connect]) @ [FindStudents, FindAttendance]\<rparr>,
           proto'))"
proof -
  from assms(1) obtain h where h: "authorization = Some h" and b: "starts_with ''Basic '' h"
    and u: "ADMIN_USER env = Some (takeWhile (\<lambda>c. c \<noteq> CHR '':'') (base64 (drop 6 h)))"
    and p: "ADMIN_PASS env =
            Some (drop 1 (dropWhile (\<lambda>c. c \<noteq> CHR '':'') (base64 (drop 6 h))))"
    by (auto simp: credentials_match_def split: option.splits)
  have g: "getDb faults cached = (None, True, if cached then [] else [Connect])"
    using assms(2) by (auto simp: getDb_def)
  show ?thesis
    using b assms(3,4)
    by (simp add: stats_handler_def h Let_def first_split_on join_tl_split_on u p g
        split: prod.splits sum.splits)
qed

text \<open>
  Claim C8. Two invocations on the same roster and attendance collections return the
  same report: the second invocation, in the process the first one leaves behind (its
  client cached, its \<open>Object.prototype\<close> as the first left it), gives the response of
  the first. Dates are \<open>YYYY-MM-DD\<close>, as the data model has them; sections are those
  of the data model, or any string but \<open>__proto__\<close>.
\<close>

theorem repeated_invocation_same_response:
  assumes "list_all (\<lambda>a. iso_date (a_date a)) (attendance_coll db)"
    and "list_all (\<lambda>a. a_section a \<noteq> proto_key) (attendance_coll db)"
    and "credentials_match base64 env authorization"
    and "faults Connect = None" and "faults FindStudents = None"
    and "faults FindAttendance = None"
  shows "let first = stats_handler base64 env faults False fresh db authorization;
             second = stats_handler base64 env faults (cachedClient (fst first)) (snd first)
                        db authorization
         in (\<exists>r. outcome (fst first) =
                  Returns \<lparr>statusCode = 200, headers = json_headers, body = ReportJson r\<rparr>)
            \<and> outcome (fst second) = outcome (fst first)"
proof -
  from report_counts [OF assms(2), of "students_coll db"] obtain r where
    a: "aggregate fresh (students_coll db) (attendance_coll db) = (Inr r, fresh)" by blast
  have c: "False \<or> faults Connect = None" "True \<or> faults Connect = None"
    using assms(4) by simp_all
  have f: "stats_handler base64 env faults False fresh db authorization =
      (\<lparr>outcome = Returns \<lparr>statusCode = 200, headers = json_headers, body = ReportJson r\<rparr>,
            cachedClient = True, store = db,
            accesses = [Connect, FindStudents, FindAttendance]\<rparr>, fresh)"
    by (simp add: stats_handler_authorized [OF assms(3) c(1) assms(5,6)] a)
  have s: "stats_handler base64 env faults True fresh db authorization =
      (\<lparr>outcome = Returns \<lparr>statusCode = 200, headers = json_headers, body = ReportJson r\<rparr>,
            cachedClient = True, store = db,
            accesses = [FindStudents, FindAttendance]\<rparr>, fresh)"
    by (simp add: stats_handler_authorized [OF assms(3) c(2) assms(5,6)] a)
  show ?thesis by (simp add: Let_def f s)
qed

theorem repeated_invocation_same_response_witness:
  "list_all (\<lambda>a. iso_date (a_date a)) (attendance_coll (lab_db week1))
   \<and> list_all (\<lambda>a. a_section a \<noteq> proto_key) (attendance_coll (lab_db week1))
   \<and> credentials_match (\<lambda>s. s) production (Some ''Basic ta:s3cret'')
   \<and> (\<exists>r. outcome (fst (stats_handler (\<lambda>s. s) production no_faults False fresh
                          (lab_db week1) (Some ''Basic ta:s3cret''))) =
              Returns \<lparr>statusCode = 200, headers = json_headers, body = ReportJson r\<rparr>)
   \<and> outcome (fst (stats_handler (\<lambda>s. s) production no_faults
              (cachedClient (fst (stats_handler (\<lambda>s. s) production no_faults False fresh
                          (lab_db week1) (Some ''Basic ta:s3cret''))))
              (snd (stats_handler (\<lambda>s. s) production no_faults False fresh
                          (lab_db week1) (Some ''Basic ta:s3cret'')))
              (lab_db week1) (Some ''Basic ta:s3cret''))) =
     outcome (fst (stats_handler (\<lambda>s. s) production no_faults False fresh
                          (lab_db week1) (Some ''Basic ta:s3cret'')))"
proof -
  have np: "list_all (\<lambda>a. a_section a \<noteq> proto_key) (attendance_coll (lab_db week1))"
    using week1_wellformed(2) by (simp add: lab_db_def)
  have iso: "list_all (\<lambda>a. iso_date (a_date a)) (attendance_coll (lab_db week1))"
    using week1_wellformed(1) by (simp add: lab_db_def)
  have cm: "credentials_match (\<lambda>s. s) production (Some ''Basic ta:s3cret'')"
    by (simp add: credentials_match_def production_def starts_with_def)
  have nf: "no_faults Connect = None" "no_faults FindStudents = None"
    "no_faults FindAttendance = None" by (simp_all add: no_faults_def)
  show ?thesis
    using repeated_invocation_same_response [OF iso np cm nf] iso np cm
    by (simp add: Let_def)
qed

text \<open>
  Here too the condition is needed: what a record of section \<open>__proto__\<close> adds to
  \<open>Object.prototype\<close> stays there for the next invocation in the same process, which
  counts it again.
\<close>

lemma second_invocation_differs:
  "map_option sections
     (report_of (aggregate fresh [ann, bob] [record_of ''123'' ''2026-02-06'' proto_key])) =
     Some [(''0201'', [1]), (''0202'', [1]), (''0203'', [1])]
   \<and> map_option sections
     (report_of (aggregate
        (snd (aggregate fresh [ann, bob] [record_of ''123'' ''2026-02-06'' proto_key]))
        [ann, bob] [record_of ''123'' ''2026-02-06'' proto_key])) =
     Some [(''0201'', [2]), (''0202'', [2]), (''0203'', [2])]"
  by (simp add: report_of_def aggregate_def fresh_def aggregate_step_def set_add_def
      sectionData_lookup_def section_codes_def proto_key_def build_report_def count_or_zero_def
      Let_def record_of_def)

lemma build_report_rows:
  assumes "list_all (\<lambda>a. iso_date (a_date a)) attendance"
    and "forEach_attendance
             \<lparr>dateSet = [], sectionData = (\<lambda>sec. Map.empty), objectPrototype = proto\<rparr>
             attendance = (None, st)"
    and "r = build_report students attendance st"
  shows "studentsBySection r =
         map (\<lambda>sec. (sec, js_sort most_absences_first
                (map (expected_row attendance (dates r)) (section_students students sec))))
           section_codes"
proof -
  have sub: "set (dates r) \<subseteq> a_date ` set attendance"
    using build_report_dates(3) [OF assms(2)] by (simp add: assms(3))
  have ds: "dates r = sort (dateSet st)" by (simp add: assms(3) build_report_def Let_def)
  have "studentsBySection r = map (\<lambda>sec. (sec,
             js_sort most_absences_first
               (map (roster_row_of (attendedSet attendance) (dates r))
                  (section_students students sec))))
             section_codes"
    by (simp add: assms(3) build_report_def Let_def)
  also have "roster_row_of (attendedSet attendance) (dates r) = expected_row attendance (dates r)"
    by (intro ext absences_of_expected [OF assms(1) sub])
  finally show ?thesis .
qed

lemma detail_of_expected:
  assumes "list_all (\<lambda>a. iso_date (a_date a)) attendance" and "iso_date d"
  shows "detail_of (attendedSet attendance) students d sec = expected_detail attendance students d sec"
  by (simp add: detail_of_def expected_detail_def Let_def attendedSet_has_record [OF assms])

lemma build_report_details:
  assumes "list_all (\<lambda>a. iso_date (a_date a)) attendance"
    and "forEach_attendance
             \<lparr>dateSet = [], sectionData = (\<lambda>sec. Map.empty), objectPrototype = proto\<rparr>
             attendance = (None, st)"
    and "r = build_report students attendance st"
  shows "details r =
         map (\<lambda>date. (date, map (\<lambda>sec. (sec, expected_detail attendance students date sec))
                               section_codes)) (dates r)"
proof -
  have iso: "iso_date d" if "d \<in> set (dates r)" for d
    using that build_report_dates(3) [OF assms(2), of students] assms(1)
    by (auto simp: assms(3) list_all_iff)
  have "details r = map (\<lambda>date. (date,
             map (\<lambda>sec. (sec, detail_of (attendedSet attendance) students date sec))
               section_codes)) (dates r)"
    by (simp add: assms(3) build_report_def Let_def)
  also have "\<dots> = map (\<lambda>date. (date, map (\<lambda>sec. (sec, expected_detail attendance students date sec))
                               section_codes)) (dates r)"
    by (intro map_cong refl) (simp add: detail_of_expected [OF assms(1) iso])
  finally show ?thesis .
qed





lemma record_count_insert:
  "record_count (before @ x # after) sec d =
     record_count (before @ after) sec d + (if a_section x = sec \<and> a_date x = d then 1 else 0)"
  by (simp add: record_count_def)

lemma has_record_insert:
  "has_record (before @ x # after) u d \<longleftrightarrow>
     (a_uid x = u \<and> a_date x = d) \<or> has_record (before @ after) u d"
  by (auto simp: has_record_def list_ex_iff)

lemma sorted_distinct_eq:
  "sorted xs \<Longrightarrow> distinct xs \<Longrightarrow> sorted ys \<Longrightarrow> distinct ys \<Longrightarrow> set xs = set (ys::string list)
   \<Longrightarrow> xs = ys"
  by (rule sorted_distinct_set_unique)




text \<open>
  Claim C2, as amended. An orphaned attendance record causes no error and leaves
  \<open>rosterTotals\<close> unchanged; its date joins the date list, and when that date also
  appears in another record, \<open>studentsBySection\<close> and \<open>details\<close> are what they are
  without it. It is counted in \<open>sections[code]\<close> of its own section.
\<close>

theorem orphan_record_effect:
  assumes "orphaned students orphan"
    and "list_all (\<lambda>a. iso_date (a_date a)) (before @ orphan # after)"
    and "list_all (\<lambda>a. a_section a \<noteq> proto_key) (before @ orphan # after)"
  shows "\<exists>r r'. aggregate fresh students (before @ after) = (Inr r, fresh)
      \<and> aggregate fresh students (before @ orphan # after) = (Inr r', fresh)
      \<and> rosterTotals r' = rosterTotals r
      \<and> set (dates r') = insert (a_date orphan) (set (dates r))
      \<and> (a_date orphan \<in> set (dates r) \<longrightarrow>
           dates r' = dates r \<and> studentsBySection r' = studentsBySection r
           \<and> details r' = details r)
      \<and> (a_section orphan \<in> set section_codes \<longrightarrow>
           map_of (sections r') (a_section orphan) =
             Some (map (\<lambda>d. record_count (before @ after) (a_section orphan) d
                              + (if d = a_date orphan then 1 else 0)) (dates r')))"
proof -
  define A where "A = before @ after"
  define A' where "A' = before @ orphan # after"
  have iso': "list_all (\<lambda>a. iso_date (a_date a)) A'" using assms(2) by (simp add: A'_def)
  have iso: "list_all (\<lambda>a. iso_date (a_date a)) A" using assms(2) by (simp add: A_def)
  have np': "list_all (\<lambda>a. a_section a \<noteq> proto_key) A'" using assms(3) by (simp add: A'_def)
  have np: "list_all (\<lambda>a. a_section a \<noteq> proto_key) A" using assms(3) by (simp add: A_def)
  from aggregate_clean [OF np, of students] obtain st where
    run: "forEach_attendance
             \<lparr>dateSet = [], sectionData = (\<lambda>sec. Map.empty), objectPrototype = fresh\<rparr>
             A = (None, st)"
    and agg: "aggregate fresh students A = (Inr (build_report students A st), fresh)"
    by blast
  from aggregate_clean [OF np', of students] obtain st' where
    run': "forEach_attendance
             \<lparr>dateSet = [], sectionData = (\<lambda>sec. Map.empty), objectPrototype = fresh\<rparr>
             A' = (None, st')"
    and agg': "aggregate fresh students A' = (Inr (build_report students A' st'), fresh)"
    by blast
  define r where "r = build_report students A st"
  define r' where "r' = build_report students A' st'"
  note d = build_report_dates [OF run, of students, folded r_def]
  note d' = build_report_dates [OF run', of students, folded r'_def]
  from report_counts [OF np, of students] agg
  have tot: "rosterTotals r =
         map (\<lambda>sec. (sec, length (filter (\<lambda>s. s_section s = sec) students))) section_codes"
    by (auto simp: r_def)
  from report_counts [OF np', of students] agg'
  have sec': "sections r' = map (\<lambda>sec. (sec, map (record_count A' sec) (dates r'))) section_codes"
    and tot': "rosterTotals r' =
         map (\<lambda>sec. (sec, length (filter (\<lambda>s. s_section s = sec) students))) section_codes"
    by (auto simp: r'_def)
  have c1: "rosterTotals r' = rosterTotals r" by (simp add: tot tot')
  have c2: "set (dates r') = insert (a_date orphan) (set (dates r))"
    by (simp add: d(3) d'(3) A_def A'_def)
  have same: "has_record A' (s_uid s) dt = has_record A (s_uid s) dt" if "s \<in> set students" for s dt
    using that assms(1) by (auto simp: A_def A'_def has_record_insert orphaned_def list_ex_iff)
  have row: "expected_row A' ds s = expected_row A ds s" if "s \<in> set students" for s ds
    by (simp add: expected_row_def same [OF that])
  have det: "expected_detail A' students dt sec = expected_detail A students dt sec" for dt sec
  proof -
    have "filter (\<lambda>s. has_record A' (s_uid s) dt) (section_students students sec) =
          filter (\<lambda>s. has_record A (s_uid s) dt) (section_students students sec)"
      by (intro filter_cong refl) (simp add: same section_students_def)
    moreover have "filter (\<lambda>s. \<not> has_record A' (s_uid s) dt) (section_students students sec) =
          filter (\<lambda>s. \<not> has_record A (s_uid s) dt) (section_students students sec)"
      by (intro filter_cong refl) (simp add: same section_students_def)
    ultimately show ?thesis by (simp add: expected_detail_def)
  qed
  have c3: "dates r' = dates r \<and> studentsBySection r' = studentsBySection r \<and> details r' = details r"
    if "a_date orphan \<in> set (dates r)"
  proof -
    have "set (dates r') = set (dates r)" using c2 that by auto
    then have e: "dates r' = dates r"
      by (intro sorted_distinct_eq d d')
    have m: "map (expected_row A' (dates r)) (section_students students sec) =
          map (expected_row A (dates r)) (section_students students sec)" for sec
      by (intro map_cong refl row) (simp add: section_students_def)
    have "studentsBySection r' = studentsBySection r"
      by (simp only: build_report_rows [OF iso' run' r'_def]
          build_report_rows [OF iso run r_def] e m)
    moreover have "details r' = details r"
      by (simp only: build_report_details [OF iso' run' r'_def]
          build_report_details [OF iso run r_def] e det)
    ultimately show ?thesis using e by simp
  qed
  have c4: "map_of (sections r') (a_section orphan) =
             Some (map (\<lambda>d. record_count (before @ after) (a_section orphan) d
                              + (if d = a_date orphan then 1 else 0)) (dates r'))"
    if "a_section orphan \<in> set section_codes"
    using that by (auto simp: sec' map_of_keys A'_def record_count_insert)
  show ?thesis
  proof (intro exI conjI)
    show "aggregate fresh students (before @ after) = (Inr r, fresh)"
      using agg by (simp add: r_def A_def)
    show "aggregate fresh students (before @ orphan # after) = (Inr r', fresh)"
      using agg' by (simp add: r'_def A'_def)
    show "rosterTotals r' = rosterTotals r" by (rule c1)
    show "set (dates r') = insert (a_date orphan) (set (dates r))" by (rule c2)
    show "a_date orphan \<in> set (dates r) \<longrightarrow>
           dates r' = dates r \<and> studentsBySection r' = studentsBySection r
           \<and> details r' = details r"
      using c3 by (rule impI)
    show "a_section orphan \<in> set section_codes \<longrightarrow>
           map_of (sections r') (a_section orphan) =
             Some (map (\<lambda>d. record_count (before @ after) (a_section orphan) d
                              + (if d = a_date orphan then 1 else 0)) (dates r'))"
      using c4 by (rule impI)
  qed
qed

theorem orphan_record_effect_witness:
  "orphaned [ann, bob] (record_of ''999'' ''2026-02-06'' ''0201'')
   \<and> (\<exists>r r'. aggregate fresh [ann, bob] week1 = (Inr r, fresh)
      \<and> aggregate fresh [ann, bob] (week1 @ [record_of ''999'' ''2026-02-06'' ''0201''])
          = (Inr r', fresh)
      \<and> rosterTotals r' = rosterTotals r
      \<and> dates r' = dates r \<and> studentsBySection r' = studentsBySection r
      \<and> details r' = details r
      \<and> map_of (sections r') ''0201'' =
             Some (map (\<lambda>d. record_count week1 ''0201'' d
                              + (if d = ''2026-02-06'' then 1 else 0)) (dates r')))"
proof -
  define x where "x = record_of ''999'' ''2026-02-06'' ''0201''"
  have o: "orphaned [ann, bob] x"
    by (simp add: orphaned_def x_def record_of_def ann_def bob_def)
  have iso: "list_all (\<lambda>a. iso_date (a_date a)) (week1 @ x # [])"
    using week1_wellformed(1) by (simp add: x_def record_of_def is_digit_def)
  have np: "list_all (\<lambda>a. a_section a \<noteq> proto_key) (week1 @ x # [])"
    using week1_wellformed(2) by (simp add: x_def record_of_def proto_key_def)
  from orphan_record_effect [OF o iso np] obtain r r' where
    a: "aggregate fresh [ann, bob] (week1 @ []) = (Inr r, fresh)"
    and a': "aggregate fresh [ann, bob] (week1 @ [x]) = (Inr r', fresh)"
    and t: "rosterTotals r' = rosterTotals r"
    and d: "a_date x \<in> set (dates r) \<longrightarrow>
           dates r' = dates r \<and> studentsBySection r' = studentsBySection r
           \<and> details r' = details r"
    and c: "a_section x \<in> set section_codes \<longrightarrow>
           map_of (sections r') (a_section x) =
             Some (map (\<lambda>d. record_count (week1 @ []) (a_section x) d
                              + (if d = a_date x then 1 else 0)) (dates r'))"
    by blast
  from report_counts [OF week1_wellformed(2), of "[ann, bob]"] a
  have "set (dates r) = a_date ` set week1" by auto
  then have "a_date x \<in> set (dates r)" by (simp add: week1_def x_def record_of_def)
  with d have d': "dates r' = dates r" "studentsBySection r' = studentsBySection r"
    "details r' = details r" by simp_all
  have "a_section x \<in> set section_codes" by (simp add: x_def record_of_def section_codes_def)
  with c have c': "map_of (sections r') ''0201'' =
             Some (map (\<lambda>d. record_count week1 ''0201'' d
                              + (if d = ''2026-02-06'' then 1 else 0)) (dates r'))"
    by (simp add: x_def record_of_def)
  show ?thesis
    using o a a' t d' c' unfolding x_def by auto
qed

text \<open>
  Claim C2 as stated fails: the orphaned record of identity 999 is counted in
  \<open>sections["0201"]\<close>.
\<close>

theorem orphan_is_counted:
  "orphaned [ann, bob] (record_of ''999'' ''2026-02-06'' ''0201'')
   \<and> map_option sections (report_of (aggregate fresh [ann, bob] week1)) =
       Some [(''0201'', [1]), (''0202'', [0]), (''0203'', [0])]
   \<and> map_option sections (report_of (aggregate fresh [ann, bob]
         (week1 @ [record_of ''999'' ''2026-02-06'' ''0201'']))) =
       Some [(''0201'', [2]), (''0202'', [0]), (''0203'', [0])]"
  by (simp add: report_of_def aggregate_def fresh_def aggregate_step_def set_add_def
      sectionData_lookup_def section_codes_def proto_key_def build_report_def count_or_zero_def
      Let_def record_of_def week1_def orphaned_def ann_def bob_def)

lemma length_filter_insort:
  "length (filter P (insort x xs)) = length (filter P xs) + (if P x then 1 else 0)"
  by (induction xs) auto

text \<open>
  Claim C10, as amended. Dates are \<open>YYYY-MM-DD\<close>, as the data model has them, and no
  record of the collection has the section \<open>__proto__\<close>. An attendance record whose
  section is not one of the three configured codes adds nothing to the counts of any
  configured section: with or without it, the entry of a section at a date is the number
  of records of that section and date among the other records. Its date is in the date
  list all the same. When that date appears in another record too, the date list and the
  counts are unchanged. When that date appears in no other record, the date list gains
  it, each section's counts get one more entry, a zero at that date, and the absence
  count of a roster student goes up by one, except for a student with the record's own
  identity, who counts as present on that date and keeps the same count.
\<close>

theorem unconfigured_section_record_effect:
  assumes "a_section x \<notin> set section_codes"
    and "list_all (\<lambda>a. iso_date (a_date a)) (before @ x # after)"
    and "list_all (\<lambda>a. a_section a \<noteq> proto_key) (before @ x # after)"
    and "sec \<in> set section_codes"
  shows "\<exists>r r'. aggregate fresh students (before @ after) = (Inr r, fresh)
      \<and> aggregate fresh students (before @ x # after) = (Inr r', fresh)
      \<and> set (dates r') = insert (a_date x) (set (dates r))
      \<and> map_of (sections r) sec = Some (map (record_count (before @ after) sec) (dates r))
      \<and> map_of (sections r') sec = Some (map (record_count (before @ after) sec) (dates r'))
      \<and> (a_date x \<in> a_date ` set (before @ after) \<longrightarrow>
            dates r' = dates r \<and> map_of (sections r') sec = map_of (sections r) sec)
      \<and> map_of (studentsBySection r) sec =
           Some (js_sort most_absences_first
                  (map (expected_row (before @ after) (dates r))
                     (filter (\<lambda>s. s_section s = sec) students)))
      \<and> (a_date x \<notin> a_date ` set (before @ after) \<longrightarrow>
            dates r' = insort (a_date x) (dates r)
            \<and> map_of (sections r') sec =
                 Some (map (\<lambda>d. if d = a_date x then 0 else record_count (before @ after) sec d)
                        (dates r'))
            \<and> map_of (studentsBySection r') sec =
                 Some (js_sort most_absences_first
                        (map (\<lambda>s. (expected_row (before @ after) (dates r) s)
                                \<lparr>absences := absences (expected_row (before @ after) (dates r) s)
                                             + (if s_uid s = a_uid x then 0 else 1)\<rparr>)
                           (filter (\<lambda>s. s_section s = sec) students))))"
proof -
  define A where "A = before @ after"
  define A' where "A' = before @ x # after"
  have iso': "list_all (\<lambda>a. iso_date (a_date a)) A'" using assms(2) by (simp add: A'_def)
  have iso: "list_all (\<lambda>a. iso_date (a_date a)) A" using assms(2) by (simp add: A_def)
  have np': "list_all (\<lambda>a. a_section a \<noteq> proto_key) A'" using assms(3) by (simp add: A'_def)
  have np: "list_all (\<lambda>a. a_section a \<noteq> proto_key) A" using assms(3) by (simp add: A_def)
  from aggregate_clean [OF np, of students] obtain st where
    run: "forEach_attendance
             \<lparr>dateSet = [], sectionData = (\<lambda>sec. Map.empty), objectPrototype = fresh\<rparr>
             A = (None, st)"
    and agg: "aggregate fresh students A = (Inr (build_report students A st), fresh)"
    by blast
  from aggregate_clean [OF np', of students] obtain st' where
    run': "forEach_attendance
             \<lparr>dateSet = [], sectionData = (\<lambda>sec. Map.empty), objectPrototype = fresh\<rparr>
             A' = (None, st')"
    and agg': "aggregate fresh students A' = (Inr (build_report students A' st'), fresh)"
    by blast
  define r where "r = build_report students A st"
  define r' where "r' = build_report students A' st'"
  note d = build_report_dates [OF run, of students, folded r_def]
  note d' = build_report_dates [OF run', of students, folded r'_def]
  from report_counts [OF np, of students] agg
  have sec: "sections r = map (\<lambda>sec. (sec, map (record_count A sec) (dates r))) section_codes"
    by (auto simp: r_def)
  from report_counts [OF np', of students] agg'
  have sec': "sections r' = map (\<lambda>sec. (sec, map (record_count A' sec) (dates r'))) section_codes"
    by (auto simp: r'_def)
  have g2: "set (dates r') = insert (a_date x) (set (dates r))"
    by (simp add: d(3) d'(3) A_def A'_def)
  have g3: "map_of (sections r) sec = Some (map (record_count (before @ after) sec) (dates r))"
    using assms(4) by (simp add: sec map_of_keys A_def)
  have same_count: "record_count A' sec dt = record_count A sec dt" for dt
    using assms(1,4) by (auto simp: A_def A'_def record_count_insert)
  have g4: "map_of (sections r') sec = Some (map (record_count (before @ after) sec) (dates r'))"
    using assms(4) by (simp add: sec' map_of_keys same_count A_def [symmetric])
  have g5: "dates r' = dates r \<and> map_of (sections r') sec = map_of (sections r) sec"
    if "a_date x \<in> a_date ` set (before @ after)"
  proof -
    have "a_date x \<in> set (dates r)" using that by (simp add: d(3) A_def)
    then have "set (dates r') = set (dates r)" using g2 by auto
    then have "dates r' = dates r" by (intro sorted_distinct_eq d d')
    then show ?thesis using g3 g4 by simp
  qed
  have g6: "map_of (studentsBySection r) sec =
           Some (js_sort most_absences_first
                  (map (expected_row (before @ after) (dates r))
                     (filter (\<lambda>s. s_section s = sec) students)))"
    using assms(4)
    by (simp add: build_report_rows [OF iso run r_def] map_of_keys A_def section_students_def)
  have c: "dates r' = insort (a_date x) (dates r)
            \<and> map_of (sections r') sec =
                 Some (map (\<lambda>d. if d = a_date x then 0 else record_count (before @ after) sec d)
                        (dates r'))
            \<and> map_of (studentsBySection r') sec =
                 Some (js_sort most_absences_first
                        (map (\<lambda>s. (expected_row (before @ after) (dates r) s)
                                \<lparr>absences := absences (expected_row (before @ after) (dates r) s)
                                             + (if s_uid s = a_uid x then 0 else 1)\<rparr>)
                           (filter (\<lambda>s. s_section s = sec) students)))"
    if fresh_date: "a_date x \<notin> a_date ` set (before @ after)"
  proof -
    have new: "a_date x \<notin> set (dates r)" using fresh_date by (simp add: d(3) A_def)
    have e: "dates r' = insort (a_date x) (dates r)"
    proof (rule sorted_distinct_eq)
      show "sorted (dates r')" by (rule d'(1))
      show "distinct (dates r')" by (rule d'(2))
      show "sorted (insort (a_date x) (dates r))" using d(1) by (simp add: sorted_insort)
      show "distinct (insort (a_date x) (dates r))" using d(2) new by (simp add: distinct_insort)
      show "set (dates r') = set (insort (a_date x) (dates r))"
        by (simp add: g2 set_insort_key)
    qed
    have nd: "a_date a \<noteq> a_date x" if "a \<in> set A" for a
      using that fresh_date unfolding A_def by (metis imageI)
    have zero: "record_count A sec (a_date x) = 0"
      by (auto simp: record_count_def filter_empty_conv dest: nd)
    have "map (record_count A sec) (dates r') =
          map (\<lambda>d. if d = a_date x then 0 else record_count A sec d) (dates r')"
      by (intro map_cong refl) (simp add: zero)
    then have c2: "map_of (sections r') sec =
                 Some (map (\<lambda>d. if d = a_date x then 0 else record_count (before @ after) sec d)
                        (dates r'))"
      using g4 unfolding A_def by simp
    have old: "has_record A' u dt = has_record A u dt" if "dt \<in> set (dates r)" for u dt
      using that new by (auto simp: A_def A'_def has_record_insert)
    have none: "\<not> has_record A u (a_date x)" for u
      by (auto simp: has_record_def list_ex_iff dest: nd)
    have at_new: "has_record A' u (a_date x) \<longleftrightarrow> a_uid x = u" for u
      using none [of u] by (auto simp: A_def A'_def has_record_insert)
    have row: "expected_row A' (dates r') s =
               (expected_row A (dates r) s)
                  \<lparr>absences := absences (expected_row A (dates r) s)
                                 + (if s_uid s = a_uid x then 0 else 1)\<rparr>" for s
    proof -
      have "filter (\<lambda>dt. \<not> has_record A' (s_uid s) dt) (dates r) =
            filter (\<lambda>dt. \<not> has_record A (s_uid s) dt) (dates r)"
        by (intro filter_cong refl) (simp add: old)
      then show ?thesis
        by (auto simp: expected_row_def e length_filter_insort at_new)
    qed
    have m: "map (expected_row A' (dates r')) (filter (\<lambda>s. s_section s = sec) students) =
          map (\<lambda>s. (expected_row A (dates r) s)
                            \<lparr>absences := absences (expected_row A (dates r) s)
                                         + (if s_uid s = a_uid x then 0 else 1)\<rparr>)
                       (filter (\<lambda>s. s_section s = sec) students)"
      by (intro map_cong refl row)
    have "map_of (studentsBySection r') sec =
             Some (js_sort most_absences_first
                    (map (expected_row A' (dates r')) (section_students students sec)))"
      using assms(4) by (simp add: build_report_rows [OF iso' run' r'_def] map_of_keys)
    then have "map_of (studentsBySection r') sec =
             Some (js_sort most_absences_first
                    (map (expected_row A' (dates r')) (filter (\<lambda>s. s_section s = sec) students)))"
      unfolding section_students_def .
    then have c3: "map_of (studentsBySection r') sec =
                 Some (js_sort most_absences_first
                        (map (\<lambda>s. (expected_row (before @ after) (dates r) s)
                                \<lparr>absences := absences (expected_row (before @ after) (dates r) s)
                                             + (if s_uid s = a_uid x then 0 else 1)\<rparr>)
                           (filter (\<lambda>s. s_section s = sec) students)))"
      unfolding m A_def .
    show ?thesis using e c2 c3 by simp
  qed
  show ?thesis
  proof (intro exI conjI)
    show "aggregate fresh students (before @ after) = (Inr r, fresh)"
      using agg by (simp add: r_def A_def)
    show "aggregate fresh students (before @ x # after) = (Inr r', fresh)"
      using agg' by (simp add: r'_def A'_def)
    show "set (dates r') = insert (a_date x) (set (dates r))" by (rule g2)
    show "map_of (sections r) sec = Some (map (record_count (before @ after) sec) (dates r))"
      by (rule g3)
    show "map_of (sections r') sec = Some (map (record_count (before @ after) sec) (dates r'))"
      by (rule g4)
    show "a_date x \<in> a_date ` set (before @ after) \<longrightarrow>
            dates r' = dates r \<and> map_of (sections r') sec = map_of (sections r) sec"
      using g5 by (rule impI)
    show "map_of (studentsBySection r) sec =
           Some (js_sort most_absences_first
                  (map (expected_row (before @ after) (dates r))
                     (filter (\<lambda>s. s_section s = sec) students)))"
      by (rule g6)
    show "a_date x \<notin> a_date ` set (before @ after) \<longrightarrow>
            dates r' = insort (a_date x) (dates r)
            \<and> map_of (sections r') sec =
                 Some (map (\<lambda>d. if d = a_date x then 0 else record_count (before @ after) sec d)
                        (dates r'))
            \<and> map_of (studentsBySection r') sec =
                 Some (js_sort most_absences_first
                        (map (\<lambda>s. (expected_row (before @ after) (dates r) s)
                                \<lparr>absences := absences (expected_row (before @ after) (dates r) s)
                                             + (if s_uid s = a_uid x then 0 else 1)\<rparr>)
                           (filter (\<lambda>s. s_section s = sec) students)))"
      using c by (rule impI)
  qed
qed

theorem unconfigured_section_record_effect_witness:
  "a_section (record_of ''123'' ''2026-02-13'' ''0204'') \<notin> set section_codes
   \<and> a_section (record_of ''123'' ''2026-02-13'' ''0204'') \<noteq> proto_key
   \<and> a_date (record_of ''123'' ''2026-02-13'' ''0204'') \<notin> a_date ` set (week1 @ [])
   \<and> (\<exists>r r'. aggregate fresh [ann, bob] (week1 @ []) = (Inr r, fresh)
      \<and> aggregate fresh [ann, bob] (week1 @ [record_of ''123'' ''2026-02-13'' ''0204''])
           = (Inr r', fresh)
      \<and> dates r' = insort ''2026-02-13'' (dates r)
      \<and> map_of (sections r) ''0201'' = Some (map (record_count (week1 @ []) ''0201'') (dates r))
      \<and> map_of (sections r') ''0201'' =
           Some (map (\<lambda>d. if d = ''2026-02-13'' then 0 else record_count (week1 @ []) ''0201'' d)
                  (dates r'))
      \<and> map_of (studentsBySection r) ''0201'' =
           Some (js_sort most_absences_first
                  (map (expected_row (week1 @ []) (dates r))
                     (filter (\<lambda>s. s_section s = ''0201'') [ann, bob])))
      \<and> map_of (studentsBySection r') ''0201'' =
           Some (js_sort most_absences_first
                  (map (\<lambda>s. (expected_row (week1 @ []) (dates r) s)
                          \<lparr>absences := absences (expected_row (week1 @ []) (dates r) s)
                                       + (if s_uid s = ''123'' then 0 else 1)\<rparr>)
                     (filter (\<lambda>s. s_section s = ''0201'') [ann, bob]))))"
proof -
  define x where "x = record_of ''123'' ''2026-02-13'' ''0204''"
  have ax: "a_uid x = ''123''" "a_date x = ''2026-02-13''" "a_section x = ''0204''"
    by (simp_all add: x_def record_of_def)
  have u: "a_section x \<notin> set section_codes" by (simp add: ax section_codes_def)
  have p: "a_section x \<noteq> proto_key" by (simp add: ax proto_key_def)
  have iso: "list_all (\<lambda>a. iso_date (a_date a)) (week1 @ x # [])"
    using week1_wellformed(1) by (simp add: ax is_digit_def)
  have np: "list_all (\<lambda>a. a_section a \<noteq> proto_key) (week1 @ x # [])"
    using week1_wellformed(2) by (simp add: ax proto_key_def)
  have new: "a_date x \<notin> a_date ` set (week1 @ [])"
    by (simp add: ax week1_def record_of_def)
  have sec: "''0201'' \<in> set section_codes" by (simp add: section_codes_def)
  from unconfigured_section_record_effect [OF u iso np sec, of "[ann, bob]"] new
  obtain r r' where
    "aggregate fresh [ann, bob] (week1 @ []) = (Inr r, fresh)"
    "aggregate fresh [ann, bob] (week1 @ [x]) = (Inr r', fresh)"
    "map_of (sections r) ''0201'' = Some (map (record_count (week1 @ []) ''0201'') (dates r))"
    "map_of (studentsBySection r) ''0201'' =
           Some (js_sort most_absences_first
                  (map (expected_row (week1 @ []) (dates r))
                     (filter (\<lambda>s. s_section s = ''0201'') [ann, bob])))"
    "dates r' = insort (a_date x) (dates r)"
    "map_of (sections r') ''0201'' =
                 Some (map (\<lambda>d. if d = a_date x then 0 else record_count (week1 @ []) ''0201'' d)
                        (dates r'))"
    "map_of (studentsBySection r') ''0201'' =
                 Some (js_sort most_absences_first
                        (map (\<lambda>s. (expected_row (week1 @ []) (dates r) s)
                                \<lparr>absences := absences (expected_row (week1 @ []) (dates r) s)
                                             + (if s_uid s = a_uid x then 0 else 1)\<rparr>)
                           (filter (\<lambda>s. s_section s = ''0201'') [ann, bob])))"
    by blast
  then show ?thesis
    using u p new unfolding ax x_def [symmetric] by blast
qed

text \<open>
  Claim C10 as stated fails for the student whose identity the record carries: Ann's
  absence count stays 0 when a record of hers with the unconfigured section 0204 adds
  the date 2026-02-13, while Bob's goes from 1 to 2.
\<close>

theorem same_identity_not_more_absent:
  "map_option studentsBySection (report_of (aggregate fresh [ann, bob] week1)) =
     Some [(''0201'',
            [\<lparr>r_uid = ''456'', r_name = ''Bob'', r_email = ''bob@example.edu'', absences = 1\<rparr>,
             \<lparr>r_uid = ''123'', r_name = ''Ann'', r_email = [], absences = 0\<rparr>]),
           (''0202'', []), (''0203'', [])]
   \<and> map_option studentsBySection
       (report_of (aggregate fresh [ann, bob] (week1 @ [record_of ''123'' ''2026-02-13'' ''0204'']))) =
     Some [(''0201'',
            [\<lparr>r_uid = ''456'', r_name = ''Bob'', r_email = ''bob@example.edu'', absences = 2\<rparr>,
             \<lparr>r_uid = ''123'', r_name = ''Ann'', r_email = [], absences = 0\<rparr>]),
           (''0202'', []), (''0203'', [])]"
  by (simp add: report_of_def aggregate_def fresh_def aggregate_step_def set_add_def
      sectionData_lookup_def section_codes_def proto_key_def object_prototype_functions_def
      build_report_def count_or_zero_def Let_def record_of_def week1_def ann_def bob_def
      section_students_def js_sort_def most_absences_first_def roster_row_of_def
      absences_of_def attendedSet_def attended_key_def email_or_empty_def)

end
